theory Spec2Isabelle
  imports Complex_Main "HOL-Library.Word" "HOL-Library.Sublist"
begin

section \<open>Numbers, bytes and strings of the runtime\<close>

text \<open>
  The compositor is the last (most complete) revision of \<^verbatim>\<open>class VideoCompositor\<close> in
  \<^verbatim>\<open>src/main.js\<close> (lines 977-1471). A JavaScript number is an IEEE 754 double: a finite
  double is the real number it denotes, and every arithmetic operation of the chroma key,
  of the progress timer and of the automatic fit gives the double nearest to the exact
  result (\<open>dbl\<close>). The rectangle arithmetic of \<^verbatim>\<open>drawLayer\<close> is kept over the reals.
  \<^verbatim>\<open>NaN\<close> is not a value of the model: a control whose text does not parse to a number
  is outside it. Pixel channels are the unsigned bytes of the \<^verbatim>\<open>Uint8ClampedArray\<close> that
  \<^verbatim>\<open>getImageData\<close> returns.
\<close>

subsection \<open>Rounding to the nearest double\<close>

text \<open>The nearest integer, a tie going to the even neighbour.\<close>

definition roundTiesToEven :: "real \<Rightarrow> int" where
  "roundTiesToEven v =
     (let f = \<lfloor>v\<rfloor>
      in if v < of_int f + 0.5 then f
         else if v > of_int f + 0.5 then f + 1
         else if even f then f else f + 1)"

text \<open>
  Binary64 has 53 significant bits and exponents from -1022: between \<open>2 powi e\<close> and
  \<open>2 powi (e + 1)\<close> the doubles are the multiples of \<open>2 powi (e - 52)\<close>, and below
  \<open>2 powi (- 1022)\<close> they are the multiples of \<open>2 powi (- 1074)\<close>. \<open>dbl x\<close> is the
  multiple nearest to \<open>x\<close>, a tie going to the even one (round to nearest, ties to even).
  A result of magnitude \<open>2 ^ 1024\<close> or more stands for an overflow to \<^verbatim>\<open>Infinity\<close>.
\<close>

definition binade :: "real \<Rightarrow> int" where
  "binade x = max \<lfloor>log 2 \<bar>x\<bar>\<rfloor> (- 1022)"

definition ulp :: "real \<Rightarrow> real" where
  "ulp x = 2 powi (binade x - 52)"

definition dbl :: "real \<Rightarrow> real" where
  "dbl x = (if x = 0 then 0 else of_int (roundTiesToEven (x / ulp x)) * ulp x)"

text \<open>The double with significand \<open>n\<close> in the binade \<open>e\<close>.\<close>

definition dval :: "int \<Rightarrow> int \<Rightarrow> real" where
  "dval n e = of_int n * 2 powi (e - 52)"

subsection \<open>Other operations of the language\<close>

text \<open>\<^verbatim>\<open>Math.round\<close>: the nearest integer, a tie going up.\<close>

definition jsRound :: "real \<Rightarrow> int" where
  "jsRound v = \<lfloor>v + 1 / 2\<rfloor>"

text \<open>A number that may be \<^verbatim>\<open>Infinity\<close> (a media duration, the export target).\<close>

datatype jsnum = Finite real | Infinity

text \<open>
  \<^verbatim>\<open>a || b\<close> on a number that may be missing: \<open>None\<close> stands for \<^verbatim>\<open>undefined\<close> and
  \<^verbatim>\<open>NaN\<close>, which are falsy, as is 0; \<^verbatim>\<open>Infinity\<close> is truthy.
\<close>

definition jsOr :: "jsnum option \<Rightarrow> real \<Rightarrow> jsnum" where
  "jsOr v d =
     (case v of
        None \<Rightarrow> Finite d
      | Some Infinity \<Rightarrow> Infinity
      | Some (Finite n) \<Rightarrow> if n = 0 then Finite d else Finite n)"

text \<open>\<^verbatim>\<open>Math.max\<close> of two numbers.\<close>

definition jsMax :: "jsnum \<Rightarrow> jsnum \<Rightarrow> jsnum" where
  "jsMax a b =
     (case (a, b) of
        (Finite x, Finite y) \<Rightarrow> Finite (max x y)
      | _ \<Rightarrow> Infinity)"

text \<open>
  Storing a number into a \<^verbatim>\<open>Uint8ClampedArray\<close> converts it with the language's
  \<^verbatim>\<open>ToUint8Clamp\<close>: clamp to 0..255, then round to the nearest integer, a tie going
  to the even neighbour.
\<close>

definition ToUint8ClampInt :: "real \<Rightarrow> int" where
  "ToUint8ClampInt v =
     (let clamped = min (max v 0) 255;
          f = \<lfloor>clamped\<rfloor>
      in if clamped < of_int f + 0.5 then f
         else if clamped > of_int f + 0.5 then f + 1
         else if even f then f else f + 1)"

definition ToUint8Clamp :: "real \<Rightarrow> 8 word" where
  "ToUint8Clamp v = word_of_int (ToUint8ClampInt v)"

text \<open>Reading a byte of the array gives a number.\<close>

definition byteNum :: "8 word \<Rightarrow> real" where
  "byteNum w = of_int (uint w)"

text \<open>\<^verbatim>\<open>toLowerCase\<close> on the ASCII letters, and the decimal digits of \<^verbatim>\<open>Date.now()\<close>.\<close>

definition lowerChar :: "char \<Rightarrow> char" where
  "lowerChar c =
     (let n = (of_char c :: nat) in if 65 \<le> n \<and> n \<le> 90 then char_of (n + 32) else c)"

definition toLowerCase :: "string \<Rightarrow> string" where
  "toLowerCase s = map lowerChar s"

definition digitChar :: "nat \<Rightarrow> char" where
  "digitChar d = ''0123456789'' ! d"

fun showNat :: "nat \<Rightarrow> string" where
  "showNat n = (if n < 10 then [digitChar n] else showNat (n div 10) @ [digitChar (n mod 10)])"

declare showNat.simps [simp del]

section \<open>Layer model\<close>

datatype layer_key = Background | Character | Overlay

text \<open>
  What a layer's \<^verbatim>\<open>element\<close> can hold: a loaded image (\<^verbatim>\<open>width\<close>, \<^verbatim>\<open>height\<close>), a video
  element (\<^verbatim>\<open>videoWidth\<close>, \<^verbatim>\<open>videoHeight\<close>, \<^verbatim>\<open>duration\<close>, \<open>None\<close> for \<^verbatim>\<open>NaN\<close>), the
  placeholder object of a failed decode (\<^verbatim>\<open>width\<close>, \<^verbatim>\<open>height\<close>, \<^verbatim>\<open>name\<close>) and the canvas
  that holds a poster frame.
\<close>

datatype dom_element =
    ImageEl nat nat
  | VideoEl nat nat "jsnum option"
  | PlaceholderEl nat nat string
  | CanvasEl nat nat

datatype layer_type = TImage | TVideo | TPlaceholder

text \<open>
  The colour control yields \<^verbatim>\<open>#rrggbb\<close>; the record keeps the three channel bytes that
  \<^verbatim>\<open>applyChromaKey\<close> parses out of it (\<^verbatim>\<open>rT\<close>, \<^verbatim>\<open>gT\<close>, \<^verbatim>\<open>bT\<close>).
\<close>

record colour =
  rT :: "8 word"
  gT :: "8 word"
  bT :: "8 word"

record layer =
  element :: "dom_element option"
  ltype :: "layer_type option"
  lx :: real
  ly :: real
  scale :: real
  opacity :: real
  chromaKey :: bool
  chromaColor :: colour
  tolerance :: real
  posterFrame :: "dom_element option"

text \<open>What the output canvas has received since it was last cleared.\<close>

datatype draw_source =
    SrcElement dom_element
  | SrcBuffer nat nat "8 word list"

datatype draw_op =
    DrawImage draw_source real real real real real
  | FillRect real real real real real string
  | StrokeRect real real real real real string
  | FillText string real real real

record compositor =
  layers :: "layer_key \<Rightarrow> layer"
  canvasWidth :: nat
  canvasHeight :: nat
  surface :: "draw_op list"
  isPlaying :: bool
  isExporting :: bool
  duration :: jsnum
  resolution :: "nat \<times> nat"
  selectedLayer :: layer_key

definition green :: colour where
  "green = \<lparr>rT = 0, gT = 255, bT = 0\<rparr>"

definition defaultLayer :: layer where
  "defaultLayer =
     \<lparr>element = None, ltype = None, lx = 0, ly = 0, scale = 1, opacity = 1,
      chromaKey = False, chromaColor = green, tolerance = 0.1, posterFrame = None\<rparr>"

text \<open>\<^verbatim>\<open>resizeCanvas\<close>: assigning the canvas size also discards its content.\<close>

definition resizeCanvas :: "compositor \<Rightarrow> compositor" where
  "resizeCanvas s =
     s\<lparr>canvasWidth := fst (resolution s), canvasHeight := snd (resolution s), surface := []\<rparr>"

text \<open>The constructor followed by \<^verbatim>\<open>init\<close>.\<close>

definition newVideoCompositor :: compositor where
  "newVideoCompositor =
     resizeCanvas
       \<lparr>layers = (\<lambda>k. defaultLayer), canvasWidth = 300, canvasHeight = 150, surface = [],
        isPlaying = False, isExporting = False, duration = Finite 0, resolution = (1920, 1080),
        selectedLayer = Character\<rparr>"

subsection \<open>Properties of elements\<close>

definition elWidth :: "dom_element \<Rightarrow> nat" where
  "elWidth el = (case el of ImageEl w h \<Rightarrow> w | VideoEl vw vh d \<Rightarrow> 0
                 | PlaceholderEl w h n \<Rightarrow> w | CanvasEl w h \<Rightarrow> w)"

definition elHeight :: "dom_element \<Rightarrow> nat" where
  "elHeight el = (case el of ImageEl w h \<Rightarrow> h | VideoEl vw vh d \<Rightarrow> 0
                  | PlaceholderEl w h n \<Rightarrow> h | CanvasEl w h \<Rightarrow> h)"

definition videoWidth :: "dom_element \<Rightarrow> nat option" where
  "videoWidth el = (case el of VideoEl vw vh d \<Rightarrow> Some vw | _ \<Rightarrow> None)"

definition videoHeight :: "dom_element \<Rightarrow> nat option" where
  "videoHeight el = (case el of VideoEl vw vh d \<Rightarrow> Some vh | _ \<Rightarrow> None)"

definition elDuration :: "dom_element \<Rightarrow> jsnum option" where
  "elDuration el = (case el of VideoEl vw vh d \<Rightarrow> d | _ \<Rightarrow> None)"


text \<open>\<^verbatim>\<open>el.videoWidth || el.width\<close> and \<^verbatim>\<open>el.videoHeight || el.height\<close>.\<close>

definition natWidth :: "dom_element \<Rightarrow> nat" where
  "natWidth el = (case videoWidth el of Some n \<Rightarrow> if n \<noteq> 0 then n else elWidth el
                  | None \<Rightarrow> elWidth el)"

definition natHeight :: "dom_element \<Rightarrow> nat" where
  "natHeight el = (case videoHeight el of Some n \<Rightarrow> if n \<noteq> 0 then n else elHeight el
                   | None \<Rightarrow> elHeight el)"

section \<open>Control handlers (\<^verbatim>\<open>setupEventListeners\<close>)\<close>

text \<open>
  The shared controls \<^verbatim>\<open>posX\<close>, \<^verbatim>\<open>posY\<close>, \<^verbatim>\<open>scale\<close>, \<^verbatim>\<open>opacity\<close>: the field is found
  from the control's id by \<^verbatim>\<open>id.replace('pos', '').toLowerCase()\<close>, and the parsed number
  is assigned to it.
\<close>

fun replacePos :: "string \<Rightarrow> string" where
  "replacePos [] = []"
| "replacePos (c # cs) =
     (if prefix ''pos'' (c # cs) then drop 3 (c # cs) else c # replacePos cs)"

definition fieldKey :: "string \<Rightarrow> string" where
  "fieldKey ident = toLowerCase (replacePos ident)"

text \<open>
  \<^verbatim>\<open>layer[key] = value\<close> for the keys the four controls give (the fields \<^verbatim>\<open>x\<close> and
  \<^verbatim>\<open>y\<close> of the source are \<open>lx\<close> and \<open>ly\<close> here).
\<close>

definition assignField :: "string \<Rightarrow> real \<Rightarrow> layer \<Rightarrow> layer" where
  "assignField key v l =
     (if key = ''x'' then l\<lparr>lx := v\<rparr>
      else if key = ''y'' then l\<lparr>ly := v\<rparr>
      else if key = ''scale'' then l\<lparr>scale := v\<rparr>
      else if key = ''opacity'' then l\<lparr>opacity := v\<rparr>
      else l)"

definition updateSelected :: "(layer \<Rightarrow> layer) \<Rightarrow> compositor \<Rightarrow> compositor" where
  "updateSelected f s = s\<lparr>layers := (layers s)(selectedLayer s := f (layers s (selectedLayer s)))\<rparr>"

definition onSharedInput :: "string \<Rightarrow> real \<Rightarrow> compositor \<Rightarrow> compositor" where
  "onSharedInput ident v s = updateSelected (assignField (fieldKey ident) v) s"

definition onChromaToggle :: "bool \<Rightarrow> compositor \<Rightarrow> compositor" where
  "onChromaToggle checked s = updateSelected (\<lambda>l. l\<lparr>chromaKey := checked\<rparr>) s"

definition onChromaColor :: "colour \<Rightarrow> compositor \<Rightarrow> compositor" where
  "onChromaColor c s = updateSelected (\<lambda>l. l\<lparr>chromaColor := c\<rparr>) s"


text \<open>
  The resolution control: the new size is stored, the canvas resized, and every layer
  centred.
\<close>

definition onResolutionChange :: "nat \<Rightarrow> nat \<Rightarrow> compositor \<Rightarrow> compositor" where
  "onResolutionChange w h s =
     (let s1 = resizeCanvas (s\<lparr>resolution := (w, h)\<rparr>)
      in s1\<lparr>layers := (\<lambda>k. (layers s1 k)\<lparr>lx := 0, ly := 0\<rparr>)\<rparr>)"

section \<open>Uploads (\<^verbatim>\<open>handleUpload\<close>)\<close>

record upload_file =
  fileName :: string
  fileType :: string

definition isVideo :: "upload_file \<Rightarrow> bool" where
  "isVideo f = (prefix ''video'' (fileType f) \<or> suffix ''.mov'' (toLowerCase (fileName f)))"

definition uploadType :: "upload_file \<Rightarrow> layer_type" where
  "uploadType f = (if isVideo f then TVideo else TImage)"

text \<open>
  \<^verbatim>\<open>setupElement(el, isError)\<close>, the closure of \<^verbatim>\<open>handleUpload\<close> that installs the new
  source; \<open>type\<close> is the closure's captured \<^verbatim>\<open>type\<close>. The poster frame is captured by a
  timer 500 ms later (\<open>capturePoster\<close>), not here.
\<close>

definition setupElement ::
  "layer_key \<Rightarrow> layer_type \<Rightarrow> dom_element \<Rightarrow> bool \<Rightarrow> compositor \<Rightarrow> compositor" where
  "setupElement layerKey type el isError s =
     (let l1 = (layers s layerKey)
                 \<lparr>element := Some el,
                  ltype := Some (if isError then TPlaceholder else type),
                  lx := 0, ly := 0, scale := 1\<rparr>;
          dur = (if layerKey = Background \<and> \<not> isError
                 then jsMax (duration s) (jsOr (elDuration el) 0) else duration s);
          l2 = (if layerKey = Background \<or> \<not> isError then
                  (let elW = natWidth el; elH = natHeight el
                   in if elH > elW \<and> canvasHeight s < canvasWidth s
                        then l1\<lparr>scale := dbl (real (canvasHeight s) / real elH)\<rparr>
                      else if elW > elH \<and> canvasWidth s < canvasHeight s
                        then l1\<lparr>scale := dbl (real (canvasWidth s) / real elW)\<rparr>
                      else l1)
                else l1)
      in s\<lparr>layers := (layers s)(layerKey := l2), duration := dur, selectedLayer := layerKey\<rparr>)"

text \<open>
  The timer callback; \<open>ok\<close> is false when drawing the video into the poster canvas
  throws, which the callback catches.
\<close>

definition capturePoster :: "layer_key \<Rightarrow> dom_element \<Rightarrow> bool \<Rightarrow> compositor \<Rightarrow> compositor" where
  "capturePoster layerKey el ok s =
     (if ok then
        s\<lparr>layers := (layers s)(layerKey := (layers s layerKey)
            \<lparr>posterFrame := Some (CanvasEl
                (case videoWidth el of Some n \<Rightarrow> if n \<noteq> 0 then n else 1920 | None \<Rightarrow> 1920)
                (case videoHeight el of Some n \<Rightarrow> if n \<noteq> 0 then n else 1080 | None \<Rightarrow> 1080))\<rparr>)\<rparr>
      else s)"

text \<open>
  What the browser reports for the element that \<^verbatim>\<open>handleUpload\<close> creates: it loaded
  (natural width and height, and the duration of a video), or it failed to decode.
\<close>

datatype load_event = Loaded nat nat "jsnum option" | LoadError

definition handleUpload ::
  "upload_file option \<Rightarrow> layer_key \<Rightarrow> load_event \<Rightarrow> compositor \<Rightarrow> compositor" where
  "handleUpload fo layerKey ev s =
     (case fo of
        None \<Rightarrow> s
      | Some f \<Rightarrow>
          if uploadType f = TVideo then
            (case ev of
               LoadError \<Rightarrow>
                 setupElement layerKey (uploadType f) (PlaceholderEl 1280 720 (fileName f)) True s
             | Loaded w h d \<Rightarrow> setupElement layerKey (uploadType f) (VideoEl w h d) False s)
          else
            (case ev of
               LoadError \<Rightarrow> s
             | Loaded w h d \<Rightarrow> setupElement layerKey (uploadType f) (ImageEl w h) False s))"

text \<open>
  The kind that matches a source: what \<^verbatim>\<open>type\<close> has to be for the layer's tag to agree
  with its element (a canvas is held as a poster frame only, never as an element).
\<close>

definition kindOf :: "dom_element \<Rightarrow> layer_type" where
  "kindOf el = (case el of ImageEl w h \<Rightarrow> TImage | VideoEl vw vh d \<Rightarrow> TVideo
                | PlaceholderEl w h n \<Rightarrow> TPlaceholder | CanvasEl w h \<Rightarrow> TImage)"



definition movedLayer :: compositor where
  "movedLayer = onSharedInput ''scale'' 3 (onSharedInput ''posX'' 25 newVideoCompositor)"

definition clipFile :: upload_file where
  "clipFile = \<lparr>fileName = ''clip.mp4'', fileType = ''video/mp4''\<rparr>"

definition twoUploads :: compositor where
  "twoUploads =
     handleUpload (Some clipFile) Character (Loaded 1280 720 (Some (Finite 3)))
       (capturePoster Character (VideoEl 640 360 (Some (Finite (1 / 4)))) True
          (handleUpload (Some clipFile) Character (Loaded 640 360 (Some (Finite (1 / 4))))
             newVideoCompositor))"

section \<open>Chroma key (\<^verbatim>\<open>applyChromaKey\<close>)\<close>

text \<open>The literals \<^verbatim>\<open>441.67\<close> and \<^verbatim>\<open>0.05\<close> are the doubles nearest to them.\<close>

definition maxDistance :: real where
  "maxDistance = dbl 441.67"

definition featherWidth :: real where
  "featherWidth = dbl 0.05"

text \<open>
  \<^verbatim>\<open>diff\<close>: the three differences are integers between -255 and 255, so their squares
  and the sum are exact; the square root and the division are rounded.
\<close>

definition colourDiff :: "8 word \<Rightarrow> 8 word \<Rightarrow> 8 word \<Rightarrow> colour \<Rightarrow> real" where
  "colourDiff r g b c =
     dbl (dbl (sqrt ((byteNum r - byteNum (rT c))\<^sup>2 + (byteNum g - byteNum (gT c))\<^sup>2
                      + (byteNum b - byteNum (bT c))\<^sup>2)) / maxDistance)"

text \<open>
  One pass of the loop body at index \<open>i\<close>. A read past the end of the array gives
  \<^verbatim>\<open>undefined\<close>, the difference is then \<^verbatim>\<open>NaN\<close> and both comparisons fail; a write
  past the end is ignored.
\<close>

definition chromaStep :: "nat \<Rightarrow> colour \<Rightarrow> real \<Rightarrow> 8 word list \<Rightarrow> 8 word list" where
  "chromaStep i c tol data =
     (if i + 2 < length data then
        (let r = data ! i; g = data ! (i + 1); b = data ! (i + 2);
             diff = colourDiff r g b c
         in if diff < tol then data[i + 3 := 0]
            else if diff < dbl (tol + featherWidth)
              then data[i + 3 := ToUint8Clamp (dbl (dbl (dbl (diff - tol) / featherWidth) * 255))]
            else data)
      else data)"

function chromaLoop :: "nat \<Rightarrow> colour \<Rightarrow> real \<Rightarrow> 8 word list \<Rightarrow> 8 word list" where
  "chromaLoop i c tol data =
     (if i < length data then chromaLoop (i + 4) c tol (chromaStep i c tol data)
      else data)"
  by pat_completeness auto
termination
  by (relation "measure (\<lambda>(i, c, t, data). length data - i)")
     (auto simp: chromaStep_def Let_def)

declare chromaLoop.simps [simp del]

text \<open>
  \<open>pixels\<close> is what \<^verbatim>\<open>getImageData\<close> reads back after the element has been drawn into the
  off-screen canvas at its natural size; \<open>galpha\<close> is the context's \<^verbatim>\<open>globalAlpha\<close>
  at the time of the final \<^verbatim>\<open>drawImage\<close>.
\<close>

definition applyChromaKey ::
  "(dom_element \<Rightarrow> 8 word list) \<Rightarrow> real \<Rightarrow> dom_element \<Rightarrow> real \<Rightarrow> real \<Rightarrow> real \<Rightarrow> real
     \<Rightarrow> colour \<Rightarrow> real \<Rightarrow> draw_op" where
  "applyChromaKey pixels galpha el x y w h target tol =
     DrawImage (SrcBuffer (natWidth el) (natHeight el) (chromaLoop 0 target tol (pixels el)))
       x y w h galpha"

text \<open>
  The number the loop assigns to the alpha of a pixel in the feather band,
  \<^verbatim>\<open>((diff - tolerance) / 0.05) * 255\<close>, and the alpha the loop leaves in a pixel, as
  functions of the pixel's difference.
\<close>

definition featherValue :: "real \<Rightarrow> real \<Rightarrow> real" where
  "featherValue diff tol = dbl (dbl (dbl (diff - tol) / featherWidth) * 255)"

definition keyedAlpha :: "real \<Rightarrow> real \<Rightarrow> 8 word \<Rightarrow> 8 word" where
  "keyedAlpha diff tol a =
     (if diff < tol then 0
      else if diff < dbl (tol + featherWidth) then ToUint8Clamp (featherValue diff tol)
      else a)"

text \<open>The difference of pixel \<open>k\<close> of a frame.\<close>

definition pixelDiff :: "8 word list \<Rightarrow> colour \<Rightarrow> nat \<Rightarrow> real" where
  "pixelDiff data c k = colourDiff (data ! (4 * k)) (data ! (4 * k + 1)) (data ! (4 * k + 2)) c"

text \<open>
  Examples: the target colours black and (1, 2, 3); the tolerance 0.1 as the tolerance
  control gives it, and a tolerance at which the feather value falls just below a half;
  a frame of two opaque pixels whose distances to black are 45 and the square root of
  2026; a frame of one fully transparent pixel at distance 45; a frame of one pixel at
  distance 49 from (1, 2, 3), all three channels differing.
\<close>

definition black :: colour where
  "black = \<lparr>rT = 0, gT = 0, bT = 0\<rparr>"

definition dusk :: colour where
  "dusk = \<lparr>rT = 1, gT = 2, bT = 3\<rparr>"

definition tenth :: real where
  "tenth = dbl 0.1"

definition nearTie :: real where
  "nearTie = dbl 0.0896311215409251"

definition twoPixels :: "8 word list" where
  "twoPixels = [45, 0, 0, 255, 45, 1, 0, 255]"


definition onePixel :: "8 word list" where
  "onePixel = [15, 23, 45, 255]"

section \<open>Compositor (\<^verbatim>\<open>drawLayer\<close>, \<^verbatim>\<open>draw\<close>)\<close>








section \<open>Export (\<^verbatim>\<open>exportVideo\<close>)\<close>

definition mp4Mime :: string where
  "mp4Mime = ''video/mp4; codecs=avc1.42E01E''"

definition webmMime :: string where
  "webmMime = ''video/webm; codecs=vp9''"

text \<open>
  The choice of \<^verbatim>\<open>options.mimeType\<close> and \<^verbatim>\<open>extension\<close>; \<open>isTypeSupported\<close> is the
  runtime's \<^verbatim>\<open>MediaRecorder.isTypeSupported\<close>.
\<close>

definition selectCodec :: "(string \<Rightarrow> bool) \<Rightarrow> string \<times> string" where
  "selectCodec isTypeSupported =
     (if \<not> isTypeSupported mp4Mime then (webmMime, ''webm'') else (mp4Mime, ''mp4''))"

text \<open>
  \<^verbatim>\<open>new MediaRecorder(stream, options)\<close> raises \<^verbatim>\<open>NotSupportedError\<close> for a MIME type the
  runtime does not support.
\<close>

datatype js_error = NotSupportedError

record recorder =
  mimeType :: string

definition newMediaRecorder :: "(string \<Rightarrow> bool) \<Rightarrow> string \<Rightarrow> js_error + recorder" where
  "newMediaRecorder isTypeSupported mime =
     (if isTypeSupported mime then Inr \<lparr>mimeType = mime\<rparr> else Inl NotSupportedError)"

text \<open>
  \<^verbatim>\<open>exportVideo\<close> up to the construction of the recorder: the exporting flag is set first,
  and nothing catches the constructor's error, so the state that an error leaves behind
  still has the flag set (and the loading overlay shown). The result is that state and the
  recorder or the error.
\<close>

definition exportVideoStart ::
  "(string \<Rightarrow> bool) \<Rightarrow> compositor \<Rightarrow> compositor \<times> (js_error + recorder)" where
  "exportVideoStart isTypeSupported s =
     (s\<lparr>isExporting := True\<rparr>,
      case selectCodec isTypeSupported of
        (mime, extension) \<Rightarrow> newMediaRecorder isTypeSupported mime)"

text \<open>
  The file that \<^verbatim>\<open>recorder.onstop\<close> offers for download: the blob of the recorded chunks
  and its name; \<open>now\<close> is \<^verbatim>\<open>Date.now()\<close> at that moment. A blob keeps its type in lower
  case.
\<close>

record 'c export_file =
  download :: string
  blobType :: string
  blobParts :: "'c list"

definition exportFile ::
  "(string \<Rightarrow> bool) \<Rightarrow> nat \<Rightarrow> 'c list \<Rightarrow> js_error + 'c export_file" where
  "exportFile isTypeSupported now chunks =
     (case selectCodec isTypeSupported of
        (mime, extension) \<Rightarrow>
          (case newMediaRecorder isTypeSupported mime of
             Inl e \<Rightarrow> Inl e
           | Inr rec \<Rightarrow>
               Inr \<lparr>download = ''composite_export_'' @ showNat now @ ''.'' @ extension,
                    blobType = toLowerCase mime, blobParts = chunks\<rparr>))"

text \<open>
  The progress timer. \<open>exportTarget\<close> is \<^verbatim>\<open>duration\<close> in milliseconds, \<open>elapsed\<close> the
  counter the callback advances by 100, \<open>reported\<close> the percentages written to the
  progress label so far, and \<open>stopped\<close> says that the callback has cleared the interval and
  stopped the recorder; the callback does not run again after that, so \<open>tick\<close> leaves a
  stopped session as it is.
\<close>

record export_session =
  elapsed :: nat
  exportTarget :: jsnum
  reported :: "int list"
  stopped :: bool

text \<open>
  \<^verbatim>\<open>(duration || 5) * 1000\<close>; the product of a non-negative duration overflows to
  \<^verbatim>\<open>Infinity\<close> from \<open>2 ^ 1024\<close>.
\<close>

definition timesThousand :: "jsnum \<Rightarrow> jsnum" where
  "timesThousand v =
     (case v of
        Infinity \<Rightarrow> Infinity
      | Finite d \<Rightarrow> if 2 ^ 1024 \<le> dbl (d * 1000) then Infinity else Finite (dbl (d * 1000)))"

definition exportDuration :: "compositor \<Rightarrow> jsnum" where
  "exportDuration s =
     timesThousand
       (jsOr (case element (layers s Background) of None \<Rightarrow> None | Some el \<Rightarrow> elDuration el) 5)"

definition startExport :: "compositor \<Rightarrow> export_session" where
  "startExport s = \<lparr>elapsed = 0, exportTarget = exportDuration s, reported = [], stopped = False\<rparr>"

text \<open>
  One run of the timer callback. \<^verbatim>\<open>elapsed / duration\<close> is 0 for an infinite duration and
  \<^verbatim>\<open>Infinity\<close> for a duration of 0, which \<^verbatim>\<open>Math.min\<close> then caps at 99; otherwise the
  quotient and the product with 100 are each rounded to a double.
\<close>

definition tick :: "export_session \<Rightarrow> export_session" where
  "tick e =
     (if stopped e then e
      else
        (let el = elapsed e + 100;
             prog = (case exportTarget e of
                       Infinity \<Rightarrow> 0
                     | Finite d \<Rightarrow>
                         if d = 0 then 99
                         else min (jsRound (dbl (dbl (real el / d) * 100))) 99)
         in e\<lparr>elapsed := el, reported := reported e @ [prog],
              stopped := (case exportTarget e of Infinity \<Rightarrow> False | Finite d \<Rightarrow> real el \<ge> d)\<rparr>))"

text \<open>The percentage the timer callback computes when \<open>elapsed\<close> is \<open>ms\<close>.\<close>

definition progressAt :: "jsnum \<Rightarrow> nat \<Rightarrow> int" where
  "progressAt target ms =
     (case target of
        Infinity \<Rightarrow> 0
      | Finite d \<Rightarrow> if d = 0 then 99 else min (jsRound (dbl (dbl (real ms / d) * 100))) 99)"

text \<open>\<^verbatim>\<open>elapsed >= duration\<close>, the stop condition.\<close>

definition reached :: "jsnum \<Rightarrow> nat \<Rightarrow> bool" where
  "reached target ms = (case target of Infinity \<Rightarrow> False | Finite d \<Rightarrow> d \<le> real ms)"

text \<open>
  What holds of the session after \<open>n\<close> runs of the timer callback: the counter stands at
  100 per report, report \<open>i\<close> was computed at 100 * (i + 1) ms, and the timer is stopped
  exactly when a report has been made at or after the target.
\<close>

definition tickInv :: "jsnum \<Rightarrow> nat \<Rightarrow> export_session \<Rightarrow> bool" where
  "tickInv target n e \<longleftrightarrow>
     exportTarget e = target
     \<and> elapsed e = 100 * length (reported e)
     \<and> (\<forall>i < length (reported e). reported e ! i = progressAt target (100 * (i + 1)))
     \<and> (\<forall>i. i + 1 < length (reported e) \<longrightarrow> \<not> reached target (100 * (i + 1)))
     \<and> (stopped e \<longleftrightarrow> reported e \<noteq> [] \<and> reached target (elapsed e))
     \<and> length (reported e) \<le> n
     \<and> (\<not> stopped e \<longrightarrow> length (reported e) = n)"

text \<open>
  Examples: backgrounds of 4 seconds, of a quarter of a second, of zero and of infinite
  duration; a runtime that records WebM only, and a runtime that records WebM with VP8
  only.
\<close>

definition backgroundClip :: "jsnum \<Rightarrow> compositor" where
  "backgroundClip d = handleUpload (Some clipFile) Background (Loaded 640 360 (Some d)) newVideoCompositor"

definition onlyVp8 :: "string \<Rightarrow> bool" where
  "onlyVp8 m \<longleftrightarrow> m = ''video/webm; codecs=vp8''"

definition onlyWebm :: "string \<Rightarrow> bool" where
  "onlyWebm m \<longleftrightarrow> prefix ''video/webm'' m"

section \<open>Facts about rounding\<close>

lemma rte_mono: "v \<le> w \<Longrightarrow> roundTiesToEven v \<le> roundTiesToEven w"
proof -
  assume vw: "v \<le> w"
  have fl: "\<lfloor>v\<rfloor> \<le> \<lfloor>w\<rfloor>" using vw by (rule floor_mono)
  consider "\<lfloor>v\<rfloor> = \<lfloor>w\<rfloor>" | "\<lfloor>v\<rfloor> + 1 \<le> \<lfloor>w\<rfloor>" using fl by linarith
  then show ?thesis
  proof cases
    case 1
    then show ?thesis unfolding roundTiesToEven_def Let_def using vw by auto
  next
    case 2
    then show ?thesis unfolding roundTiesToEven_def Let_def by auto
  qed
qed

lemma rte_near: "\<bar>of_int (roundTiesToEven v) - v\<bar> \<le> 1 / 2"
proof -
  have "of_int \<lfloor>v\<rfloor> \<le> v" "v < of_int \<lfloor>v\<rfloor> + 1" by linarith+
  then show ?thesis unfolding roundTiesToEven_def Let_def by auto
qed

lemma rte_eqI:
  assumes "of_int n - 1 / 2 < v" "v < of_int n + 1 / 2"
  shows "roundTiesToEven v = n"
proof -
  have fl: "of_int \<lfloor>v\<rfloor> \<le> v" "v < of_int \<lfloor>v\<rfloor> + 1" by linarith+
  have "\<lfloor>v\<rfloor> = n \<or> \<lfloor>v\<rfloor> = n - 1" using assms fl by linarith
  then show ?thesis
    unfolding roundTiesToEven_def Let_def using assms by auto
qed

lemma rte_of_int: "roundTiesToEven (of_int n) = n"
  by (rule rte_eqI) simp_all

lemma rte_ge: "of_int k \<le> v \<Longrightarrow> k \<le> roundTiesToEven v"
  using rte_mono [of "of_int k" v] by (simp add: rte_of_int)

lemma rte_le: "v \<le> of_int k \<Longrightarrow> roundTiesToEven v \<le> k"
  using rte_mono [of v "of_int k"] by (simp add: rte_of_int)

lemma two_powi_add: "(2::real) powi (a + b) = 2 powi a * 2 powi b"
  by (simp add: power_int_add)

lemma ulp_scale: "2 powi (binade x + 1) = 2 ^ 53 * ulp x" "2 powi (binade x) = 2 ^ 52 * ulp x"
proof -
  have "binade x + 1 = 53 + (binade x - 52)" by simp
  then have "(2::real) powi (binade x + 1) = 2 powi (53 + (binade x - 52))" by (rule arg_cong)
  also have "\<dots> = 2 powi 53 * 2 powi (binade x - 52)" by (rule two_powi_add)
  finally show "2 powi (binade x + 1) = 2 ^ 53 * ulp x" by (simp add: ulp_def)
  have "binade x = 52 + (binade x - 52)" by simp
  then have "(2::real) powi (binade x) = 2 powi (52 + (binade x - 52))" by (rule arg_cong)
  also have "\<dots> = 2 powi 52 * 2 powi (binade x - 52)" by (rule two_powi_add)
  finally show "2 powi (binade x) = 2 ^ 52 * ulp x" by (simp add: ulp_def)
qed

lemma ulp_pos: "0 < ulp x"
  by (simp add: ulp_def)

lemma binade_ge: "- 1022 \<le> binade x"
  by (simp add: binade_def)

lemma binade_mono: "0 < x \<Longrightarrow> x \<le> y \<Longrightarrow> binade x \<le> binade y"
proof -
  assume "0 < x" "x \<le> y"
  then have "log 2 \<bar>x\<bar> \<le> log 2 \<bar>y\<bar>" by simp
  then have "\<lfloor>log 2 \<bar>x\<bar>\<rfloor> \<le> \<lfloor>log 2 \<bar>y\<bar>\<rfloor>" by (rule floor_mono)
  then show ?thesis by (simp add: binade_def)
qed

lemma two_powi_powr: "(2::real) powi k = 2 powr (of_int k)"
  by (simp add: powr_real_of_int')

lemma binade_upper: "x \<noteq> 0 \<Longrightarrow> \<bar>x\<bar> < 2 powi (binade x + 1)"
proof -
  assume "x \<noteq> 0"
  then have pos: "0 < \<bar>x\<bar>" by simp
  have "\<bar>x\<bar> < 2 powr (of_int \<lfloor>log 2 \<bar>x\<bar>\<rfloor> + 1)"
    using floor_log_eq_powr_iff [of "\<bar>x\<bar>" 2 "\<lfloor>log 2 \<bar>x\<bar>\<rfloor>"] pos by simp
  then have "\<bar>x\<bar> < 2 powi (\<lfloor>log 2 \<bar>x\<bar>\<rfloor> + 1)"
    by (simp add: two_powi_powr)
  also have "\<dots> \<le> 2 powi (binade x + 1)"
    by (rule power_int_increasing) (simp_all add: binade_def)
  finally show ?thesis .
qed

lemma binade_lower: "x \<noteq> 0 \<Longrightarrow> - 1022 < binade x \<Longrightarrow> 2 powi (binade x) \<le> \<bar>x\<bar>"
proof -
  assume "x \<noteq> 0" and b: "- 1022 < binade x"
  then have pos: "0 < \<bar>x\<bar>" by simp
  from b have e: "binade x = \<lfloor>log 2 \<bar>x\<bar>\<rfloor>" by (simp add: binade_def max_def split: if_splits)
  have "2 powr (of_int \<lfloor>log 2 \<bar>x\<bar>\<rfloor>) \<le> \<bar>x\<bar>"
    using floor_log_eq_powr_iff [of "\<bar>x\<bar>" 2 "\<lfloor>log 2 \<bar>x\<bar>\<rfloor>"] pos by simp
  then show ?thesis by (simp add: e two_powi_powr)
qed

lemma binade_eqI:
  assumes "2 powi e \<le> \<bar>x\<bar>" "\<bar>x\<bar> < 2 powi (e + 1)" "- 1022 \<le> e"
  shows "binade x = e"
proof -
  have pos: "0 < \<bar>x\<bar>" using assms(1) by (smt (verit) zero_less_power_int)
  have "\<lfloor>log 2 \<bar>x\<bar>\<rfloor> = e"
    using floor_log_eq_powr_iff [of "\<bar>x\<bar>" 2 e] pos assms(1,2)
    by (simp add: two_powi_powr)
  then show ?thesis using assms(3) by (simp add: binade_def)
qed

lemma dbl_eqI:
  assumes "2 powi e \<le> \<bar>x\<bar>" "\<bar>x\<bar> < 2 powi (e + 1)" "- 1022 \<le> e"
    and "of_int n - 1 / 2 < x / 2 powi (e - 52)" "x / 2 powi (e - 52) < of_int n + 1 / 2"
  shows "dbl x = dval n e"
proof -
  have b: "binade x = e" using assms(1-3) by (rule binade_eqI)
  have nz: "x \<noteq> 0" using assms(1) by (smt (verit) zero_less_power_int abs_zero)
  have "roundTiesToEven (x / 2 powi (e - 52)) = n"
    using assms(4,5) by (rule rte_eqI)
  then show ?thesis using nz by (simp add: dbl_def ulp_def b dval_def)
qed

lemma rte_tie_up:
  assumes "v = of_int n - 1 / 2" and "even n"
  shows "roundTiesToEven v = n"
proof -
  have f: "\<lfloor>v\<rfloor> = n - 1" unfolding assms(1) by linarith
  have "odd (n - 1)" using assms(2) by simp
  then show ?thesis
    unfolding roundTiesToEven_def f Let_def using assms(1) by simp
qed

lemma dbl_tie_up:
  assumes "2 powi e \<le> \<bar>x\<bar>" "\<bar>x\<bar> < 2 powi (e + 1)" "- 1022 \<le> e"
    and "x / 2 powi (e - 52) = of_int n - 1 / 2" "even n"
  shows "dbl x = dval n e"
proof -
  have b: "binade x = e" using assms(1-3) by (rule binade_eqI)
  have nz: "x \<noteq> 0" using assms(1) by (smt (verit) zero_less_power_int abs_zero)
  have "roundTiesToEven (x / 2 powi (e - 52)) = n"
    using assms(4,5) by (rule rte_tie_up)
  then show ?thesis using nz by (simp add: dbl_def ulp_def b dval_def)
qed

lemma dbl_0: "dbl 0 = 0"
  by (simp add: dbl_def)

lemma dbl_nonneg: "0 \<le> x \<Longrightarrow> 0 \<le> dbl x"
proof (cases "x = 0")
  case True then show ?thesis by (simp add: dbl_def)
next
  case False
  assume "0 \<le> x"
  then have "0 \<le> x / ulp x" using ulp_pos [of x] by simp
  then have "0 \<le> roundTiesToEven (x / ulp x)" using rte_ge [of 0 "x / ulp x"] by simp
  then show ?thesis using False ulp_pos [of x] by (simp add: dbl_def)
qed

lemma dbl_mono:
  assumes "0 \<le> x" "x \<le> y"
  shows "dbl x \<le> dbl y"
proof (cases "x = 0")
  case True
  then show ?thesis using assms dbl_nonneg [of y] by (simp add: dbl_0)
next
  case False
  then have xp: "0 < x" and yp: "0 < y" using assms by simp_all
  have ynz: "y \<noteq> 0" using yp by simp
  have be: "binade x \<le> binade y" using xp assms(2) by (rule binade_mono)
  show ?thesis
  proof (cases "binade x = binade y")
    case True
    then have u: "ulp y = ulp x" by (simp add: ulp_def)
    have "x / ulp x \<le> y / ulp x" using assms(2) ulp_pos [of x] by (simp add: divide_right_mono)
    then have "roundTiesToEven (x / ulp x) \<le> roundTiesToEven (y / ulp x)" by (rule rte_mono)
    then have "of_int (roundTiesToEven (x / ulp x)) * ulp x \<le> of_int (roundTiesToEven (y / ulp x)) * ulp x"
      using ulp_pos [of x] by (simp add: mult_right_mono)
    then show ?thesis using False ynz by (simp add: dbl_def u)
  next
    case ne: False
    with be have lt: "binade x + 1 \<le> binade y" by simp
    have xu: "x < 2 powi (binade x + 1)" using binade_upper [OF False] xp by simp
    have "x / ulp x < 2 powi (binade x + 1) / ulp x"
      using xu ulp_pos [of x] by (simp add: divide_strict_right_mono)
    also have "2 powi (binade x + 1) / ulp x = (2::real) ^ 53"
      using ulp_pos [of x] by (simp add: ulp_scale(1))
    finally have "x / ulp x \<le> of_int (2 ^ 53)" by simp
    then have "roundTiesToEven (x / ulp x) \<le> 2 ^ 53" by (rule rte_le)
    then have "of_int (roundTiesToEven (x / ulp x)) \<le> (2::real) ^ 53"
      by (metis of_int_le_iff of_int_numeral of_int_power)
    then have "of_int (roundTiesToEven (x / ulp x)) * ulp x \<le> 2 ^ 53 * ulp x"
      using ulp_pos [of x] by (simp add: mult_right_mono)
    also have "2 ^ 53 * ulp x = 2 powi (binade x + 1)"
      by (simp add: ulp_scale(1))
    finally have dx: "dbl x \<le> 2 powi (binade x + 1)" using False by (simp add: dbl_def)
    have yl: "2 powi (binade y) \<le> y"
      using binade_lower [OF ynz] lt binade_ge [of x] yp by simp
    have "2 powi (binade y) / ulp y \<le> y / ulp y"
      using yl ulp_pos [of y] by (simp add: divide_right_mono)
    moreover have "2 powi (binade y) / ulp y = (2::real) ^ 52"
      using ulp_pos [of y] by (simp add: ulp_scale(2))
    ultimately have "of_int (2 ^ 52) \<le> y / ulp y" by simp
    then have "2 ^ 52 \<le> roundTiesToEven (y / ulp y)" by (rule rte_ge)
    then have "(2::real) ^ 52 \<le> of_int (roundTiesToEven (y / ulp y))"
      by (metis of_int_le_iff of_int_numeral of_int_power)
    then have "2 ^ 52 * ulp y \<le> of_int (roundTiesToEven (y / ulp y)) * ulp y"
      using ulp_pos [of y] by (simp add: mult_right_mono)
    moreover have "2 ^ 52 * ulp y = 2 powi (binade y)"
      by (simp add: ulp_scale(2))
    ultimately have dy: "2 powi (binade y) \<le> dbl y" using ynz by (simp add: dbl_def)
    have "(2::real) powi (binade x + 1) \<le> 2 powi (binade y)"
      using lt by (intro power_int_increasing) simp_all
    with dx dy show ?thesis by linarith
  qed
qed

section \<open>Helper facts\<close>

lemma fieldKey_posX: "fieldKey ''posX'' = ''x''"
  by code_simp

lemma fieldKey_posY: "fieldKey ''posY'' = ''y''"
  by code_simp

lemma fieldKey_scale: "fieldKey ''scale'' = ''scale''"
  by code_simp

lemma fieldKey_opacity: "fieldKey ''opacity'' = ''opacity''"
  by code_simp

lemmas fieldKey_ids = fieldKey_posX fieldKey_posY fieldKey_scale fieldKey_opacity

lemma selected_after_init: "selectedLayer newVideoCompositor = Character"
  by (simp add: newVideoCompositor_def resizeCanvas_def)

lemma canvas_after_init:
  "canvasWidth newVideoCompositor = 1920" "canvasHeight newVideoCompositor = 1080"
  by (simp_all add: newVideoCompositor_def resizeCanvas_def)



lemma png_is_image: "uploadType \<lparr>fileName = ''a.png'', fileType = ''image/png''\<rparr> = TImage"
  by code_simp

lemma clip_is_video: "uploadType clipFile = TVideo"
  by (simp add: uploadType_def isVideo_def clipFile_def)



lemma dbl_9_16': "dbl (9 / 16) = 9 / 16"
proof -
  have "dbl (9 / 16) = dval 5066549580791808 (- 1)"
    by (rule dbl_eqI) simp_all
  then show ?thesis by (simp add: dval_def)
qed

lemma dbl_9_16: "dbl (1080 / 1920) = 9 / 16"
proof -
  have "dbl (1080 / 1920) = dval 5066549580791808 (- 1)"
    by (rule dbl_eqI) simp_all
  then show ?thesis by (simp add: dval_def)
qed

section \<open>Layer fields set from the controls\<close>








section \<open>Resolution change\<close>

text \<open>
  Claim C7. Changing the output resolution sets the position of every layer to (0, 0) and
  leaves every other field of every layer (scale, opacity, source, chroma key settings,
  poster frame) as it was; the canvas has the new width and height and its content is
  discarded.
\<close>

theorem resolution_change_resets_positions:
  "(\<forall>k. layers (onResolutionChange w h s) k = (layers s k)\<lparr>lx := 0, ly := 0\<rparr>)
   \<and> canvasWidth (onResolutionChange w h s) = w
   \<and> canvasHeight (onResolutionChange w h s) = h
   \<and> resolution (onResolutionChange w h s) = (w, h)
   \<and> surface (onResolutionChange w h s) = []"
  by (simp add: onResolutionChange_def resizeCanvas_def Let_def)

theorem resolution_change_resets_positions_witness:
  "lx (layers (onResolutionChange 1080 1920
         (onSharedInput ''posX'' 40 (onSharedInput ''scale'' 3 newVideoCompositor))) Character) = 0
   \<and> scale (layers (onResolutionChange 1080 1920
         (onSharedInput ''posX'' 40 (onSharedInput ''scale'' 3 newVideoCompositor))) Character) = 3
   \<and> canvasWidth (onResolutionChange 1080 1920
         (onSharedInput ''posX'' 40 (onSharedInput ''scale'' 3 newVideoCompositor))) = 1080"
  using resolution_change_resets_positions
    [of 1080 1920 "onSharedInput ''posX'' 40 (onSharedInput ''scale'' 3 newVideoCompositor)"]
  by (simp add: onSharedInput_def updateSelected_def assignField_def fieldKey_ids
        selected_after_init)

section \<open>Replacing a layer's source\<close>

lemma setupElement_layer:
  "layers (setupElement layerKey type el isError s) layerKey =
     (layers s layerKey)
       \<lparr>element := Some el,
        ltype := Some (if isError then TPlaceholder else type),
        lx := 0, ly := 0,
        scale :=
          (if (layerKey = Background \<or> \<not> isError)
              \<and> natHeight el > natWidth el \<and> canvasHeight s < canvasWidth s
           then dbl (real (canvasHeight s) / real (natHeight el))
           else if (layerKey = Background \<or> \<not> isError)
              \<and> natWidth el > natHeight el \<and> canvasWidth s < canvasHeight s
           then dbl (real (canvasWidth s) / real (natWidth el))
           else 1)\<rparr>"
  by (simp add: setupElement_def Let_def)

lemma setupElement_keeps_posterFrame:
  "posterFrame (layers (setupElement layerKey type el isError s) k) = posterFrame (layers s k)"
  by (simp add: setupElement_def Let_def)

lemma setupElement_selects: "selectedLayer (setupElement layerKey type el isError s) = layerKey"
  by (simp add: setupElement_def Let_def)

lemma png_not_video: "\<not> isVideo \<lparr>fileName = ''a.png'', fileType = ''image/png''\<rparr>"
  by code_simp

lemma movedLayer_facts:
  "lx (layers movedLayer Character) = 25" "scale (layers movedLayer Character) = 3"
  "canvasWidth movedLayer = 1920" "canvasHeight movedLayer = 1080"
  by (simp_all add: movedLayer_def onSharedInput_def updateSelected_def assignField_def
        fieldKey_ids selected_after_init canvas_after_init)

lemma twoUploads_layer:
  "element (layers twoUploads Character) = Some (VideoEl 1280 720 (Some (Finite 3)))"
  "posterFrame (layers twoUploads Character) = Some (CanvasEl 640 360)"
  by (simp_all add: twoUploads_def handleUpload_def clip_is_video setupElement_layer
        setupElement_keeps_posterFrame capturePoster_def videoWidth_def videoHeight_def)

text \<open>
  Claim C3, as amended. Every upload that installs a source (a loaded video, a loaded
  image, or the placeholder of a video that failed to decode) leaves the layer holding
  that source, its kind the one that matches the source (video, image, placeholder), and
  position (0, 0). Its scale is 1 unless the automatic fit applies: for the background
  layer, and for any successfully loaded source, a source taller than wide on a canvas
  wider than tall gets the scale canvas height / natural height, and a source wider than
  tall on a canvas taller than wide gets the scale canvas width / natural width (the
  quotient as a double). The layer becomes the selected one.
\<close>

theorem source_replacement_resets_layer:
  assumes "(isVideo f \<and> ev = Loaded w h d \<and> el = VideoEl w h d \<and> \<not> isError)
         \<or> (\<not> isVideo f \<and> ev = Loaded w h d \<and> el = ImageEl w h \<and> \<not> isError)
         \<or> (isVideo f \<and> ev = LoadError \<and> el = PlaceholderEl 1280 720 (fileName f) \<and> isError)"
  shows "element (layers (handleUpload (Some f) key ev s) key) = Some el
   \<and> ltype (layers (handleUpload (Some f) key ev s) key) = Some (kindOf el)
   \<and> lx (layers (handleUpload (Some f) key ev s) key) = 0
   \<and> ly (layers (handleUpload (Some f) key ev s) key) = 0
   \<and> scale (layers (handleUpload (Some f) key ev s) key)
       = (if (key = Background \<or> \<not> isError)
             \<and> natHeight el > natWidth el \<and> canvasHeight s < canvasWidth s
          then dbl (real (canvasHeight s) / real (natHeight el))
          else if (key = Background \<or> \<not> isError)
             \<and> natWidth el > natHeight el \<and> canvasWidth s < canvasHeight s
          then dbl (real (canvasWidth s) / real (natWidth el))
          else 1)
   \<and> selectedLayer (handleUpload (Some f) key ev s) = key"
proof -
  have up: "handleUpload (Some f) key ev s = setupElement key (uploadType f) el isError s"
    and kind: "kindOf el = (if isError then TPlaceholder else uploadType f)"
    using assms by (auto simp: handleUpload_def uploadType_def kindOf_def)
  show ?thesis
    unfolding up by (simp add: setupElement_layer setupElement_selects kind)
qed

theorem source_replacement_resets_layer_witness:
  "lx (layers movedLayer Character) = 25
   \<and> scale (layers movedLayer Character) = 3
   \<and> element (layers (handleUpload (Some \<lparr>fileName = ''a.png'', fileType = ''image/png''\<rparr>)
         Character (Loaded 1080 1920 None) movedLayer) Character) = Some (ImageEl 1080 1920)
   \<and> ltype (layers (handleUpload (Some \<lparr>fileName = ''a.png'', fileType = ''image/png''\<rparr>)
         Character (Loaded 1080 1920 None) movedLayer) Character) = Some TImage
   \<and> lx (layers (handleUpload (Some \<lparr>fileName = ''a.png'', fileType = ''image/png''\<rparr>)
         Character (Loaded 1080 1920 None) movedLayer) Character) = 0
   \<and> scale (layers (handleUpload (Some \<lparr>fileName = ''a.png'', fileType = ''image/png''\<rparr>)
         Character (Loaded 1080 1920 None) movedLayer) Character) = 9 / 16
   \<and> scale (layers (handleUpload (Some \<lparr>fileName = ''a.png'', fileType = ''image/png''\<rparr>)
         Character (Loaded 640 480 None) movedLayer) Character) = 1"
proof -
  let ?f = "\<lparr>fileName = ''a.png'', fileType = ''image/png''\<rparr>"
  have tall: "(isVideo ?f \<and> Loaded 1080 1920 None = Loaded 1080 1920 None
        \<and> ImageEl 1080 1920 = VideoEl 1080 1920 None \<and> \<not> False)
      \<or> (\<not> isVideo ?f \<and> Loaded 1080 1920 None = Loaded 1080 1920 None
        \<and> ImageEl 1080 1920 = ImageEl 1080 1920 \<and> \<not> False)
      \<or> (isVideo ?f \<and> Loaded 1080 1920 None = LoadError
        \<and> ImageEl 1080 1920 = PlaceholderEl 1280 720 (fileName ?f) \<and> False)"
    using png_not_video by simp
  have wide: "(isVideo ?f \<and> Loaded 640 480 None = Loaded 640 480 None
        \<and> ImageEl 640 480 = VideoEl 640 480 None \<and> \<not> False)
      \<or> (\<not> isVideo ?f \<and> Loaded 640 480 None = Loaded 640 480 None
        \<and> ImageEl 640 480 = ImageEl 640 480 \<and> \<not> False)
      \<or> (isVideo ?f \<and> Loaded 640 480 None = LoadError
        \<and> ImageEl 640 480 = PlaceholderEl 1280 720 (fileName ?f) \<and> False)"
    using png_not_video by simp
  from source_replacement_resets_layer [OF tall, of Character movedLayer]
    source_replacement_resets_layer [OF wide, of Character movedLayer]
    movedLayer_facts
  show ?thesis
    by (simp add: kindOf_def natWidth_def natHeight_def videoWidth_def videoHeight_def
          elWidth_def elHeight_def dbl_9_16 dbl_9_16')
qed

text \<open>
  Claim C3 as stated fails. A portrait image of 1080 x 1920 uploaded to the character
  layer of the 1920 x 1080 canvas is fitted to the canvas height, so the layer's scale
  after the upload is 1080 / 1920 and not 1. And after a second video has replaced a
  first one whose poster frame had been captured, the layer still holds the first video's
  poster frame.
\<close>

theorem upload_refits_scale_and_keeps_poster:
  "scale (layers (handleUpload (Some \<lparr>fileName = ''a.png'', fileType = ''image/png''\<rparr>)
              Character (Loaded 1080 1920 None) newVideoCompositor) Character) = 9 / 16
   \<and> scale (layers (handleUpload (Some \<lparr>fileName = ''a.png'', fileType = ''image/png''\<rparr>)
              Character (Loaded 1080 1920 None) newVideoCompositor) Character) \<noteq> 1
   \<and> element (layers twoUploads Character) = Some (VideoEl 1280 720 (Some (Finite 3)))
   \<and> posterFrame (layers twoUploads Character) = Some (CanvasEl 640 360)"
  by (simp add: twoUploads_layer)
     (simp add: handleUpload_def png_is_image setupElement_layer canvas_after_init
        natWidth_def natHeight_def videoWidth_def videoHeight_def elWidth_def elHeight_def
        dbl_9_16 dbl_9_16')

section \<open>Destination rectangle\<close>




section \<open>A video that fails to decode\<close>





section \<open>Chroma key: the byte store\<close>

lemma ToUint8ClampInt_range: "0 \<le> ToUint8ClampInt v \<and> ToUint8ClampInt v \<le> 255"
proof -
  define cl where "cl = min (max v 0) 255"
  define f where "f = \<lfloor>cl\<rfloor>"
  have b: "0 \<le> cl" "cl \<le> 255" by (simp_all add: cl_def)
  have f0: "0 \<le> f" using b by (simp add: f_def)
  have f1: "f \<le> 255" using b by (simp add: f_def floor_le_iff)
  have top: "cl < of_int f + 0.5" if "f = 255" using b that by simp
  have res: "ToUint8ClampInt v = (if cl < of_int f + 0.5 then f
         else if cl > of_int f + 0.5 then f + 1
         else if even f then f else f + 1)"
    by (simp add: ToUint8ClampInt_def Let_def cl_def f_def)
  show ?thesis
  proof (cases "f = 255")
    case True
    then show ?thesis using top res by simp
  next
    case False
    then have "f + 1 \<le> 255" using f1 by simp
    then show ?thesis using f0 res by simp
  qed
qed

lemma uint_ToUint8Clamp: "uint (ToUint8Clamp v) = ToUint8ClampInt v"
  using ToUint8ClampInt_range [of v]
  by (simp add: ToUint8Clamp_def uint_word_of_int take_bit_int_eq_self)

lemma ToUint8ClampInt_mono:
  assumes "v \<le> w"
  shows "ToUint8ClampInt v \<le> ToUint8ClampInt w"
proof -
  define a where "a = min (max v 0) 255"
  define b where "b = min (max w 0) 255"
  have ab: "a \<le> b" using assms by (auto simp: a_def b_def)
  have fl: "\<lfloor>a\<rfloor> \<le> \<lfloor>b\<rfloor>" using ab by (rule floor_mono)
  consider "\<lfloor>a\<rfloor> = \<lfloor>b\<rfloor>" | "\<lfloor>a\<rfloor> + 1 \<le> \<lfloor>b\<rfloor>" using fl by linarith
  then show ?thesis
  proof cases
    case 1
    then show ?thesis
      unfolding ToUint8ClampInt_def Let_def a_def [symmetric] b_def [symmetric]
      using ab by auto
  next
    case 2
    then show ?thesis
      unfolding ToUint8ClampInt_def Let_def a_def [symmetric] b_def [symmetric]
      by auto
  qed
qed

lemma ToUint8ClampInt_near:
  "\<bar>of_int (ToUint8ClampInt v) - min (max v 0) 255\<bar> \<le> 1 / 2"
proof -
  define cl where "cl = min (max v 0) 255"
  have "of_int \<lfloor>cl\<rfloor> \<le> cl" "cl < of_int \<lfloor>cl\<rfloor> + 1" by linarith+
  then show ?thesis
    unfolding ToUint8ClampInt_def Let_def cl_def [symmetric] by auto
qed

lemma ToUint8ClampInt_eqI:
  assumes "of_int n - 1 / 2 < v" "v < of_int n + 1 / 2" "0 \<le> n" "n \<le> 255"
  shows "ToUint8ClampInt v = n"
proof -
  define cl where "cl = min (max v 0) 255"
  have lo: "of_int n - 1 / 2 < cl" using assms by (auto simp: cl_def min_def max_def)
  have hi: "cl < of_int n + 1 / 2" using assms by (auto simp: cl_def min_def max_def)
  have fl: "of_int \<lfloor>cl\<rfloor> \<le> cl" "cl < of_int \<lfloor>cl\<rfloor> + 1" by linarith+
  have "\<lfloor>cl\<rfloor> = n \<or> \<lfloor>cl\<rfloor> = n - 1" using lo hi fl by linarith
  then show ?thesis
    unfolding ToUint8ClampInt_def Let_def cl_def [symmetric]
    using lo hi by auto
qed

subsection \<open>The loop\<close>

lemma length_chromaStep: "length (chromaStep i c t data) = length data"
  by (simp add: chromaStep_def Let_def)

lemma chromaStep_other: "j \<noteq> i + 3 \<Longrightarrow> chromaStep i c t data ! j = data ! j"
  by (simp add: chromaStep_def Let_def)

lemma chromaStep_alpha:
  "i + 3 < length data \<Longrightarrow>
   chromaStep i c t data ! (i + 3)
     = keyedAlpha (colourDiff (data ! i) (data ! (i + 1)) (data ! (i + 2)) c) t (data ! (i + 3))"
  by (simp add: chromaStep_def Let_def keyedAlpha_def featherValue_def)

lemma length_chromaLoop: "length (chromaLoop i c t data) = length data"
proof (induction i c t data rule: chromaLoop.induct)
  case (1 i c t data)
  show ?case
  proof (cases "i < length data")
    case True
    with 1 show ?thesis
      by (subst chromaLoop.simps) (simp add: length_chromaStep)
  next
    case False
    then show ?thesis by (subst chromaLoop.simps) simp
  qed
qed

lemma chromaLoop_below: "j < i \<Longrightarrow> chromaLoop i c t data ! j = data ! j"
proof (induction i c t data rule: chromaLoop.induct)
  case (1 i c t data)
  show ?case
  proof (cases "i < length data")
    case True
    have "chromaLoop i c t data ! j = chromaLoop (i + 4) c t (chromaStep i c t data) ! j"
      using True by (subst chromaLoop.simps) simp
    also have "\<dots> = chromaStep i c t data ! j"
      using 1 True by simp
    also have "\<dots> = data ! j"
      using \<open>j < i\<close> by (simp add: chromaStep_other)
    finally show ?thesis .
  next
    case False
    then show ?thesis by (subst chromaLoop.simps) simp
  qed
qed

lemma chromaLoop_colour_bytes:
  "4 dvd i \<Longrightarrow> j mod 4 \<noteq> 3 \<Longrightarrow> chromaLoop i c t data ! j = data ! j"
proof (induction i c t data rule: chromaLoop.induct)
  case (1 i c t data)
  show ?case
  proof (cases "i < length data")
    case True
    have ne: "j \<noteq> i + 3"
      using "1.prems" by presburger
    have "chromaLoop i c t data ! j = chromaLoop (i + 4) c t (chromaStep i c t data) ! j"
      using True by (subst chromaLoop.simps) simp
    also have "\<dots> = chromaStep i c t data ! j"
      using 1 True by simp
    also have "\<dots> = data ! j"
      using ne by (simp add: chromaStep_other)
    finally show ?thesis .
  next
    case False
    then show ?thesis by (subst chromaLoop.simps) simp
  qed
qed

lemma chromaLoop_alpha:
  "4 dvd i \<Longrightarrow> i \<le> 4 * k \<Longrightarrow> 4 * k + 3 < length data \<Longrightarrow>
   chromaLoop i c t data ! (4 * k + 3)
     = keyedAlpha (colourDiff (data ! (4 * k)) (data ! (4 * k + 1)) (data ! (4 * k + 2)) c) t
         (data ! (4 * k + 3))"
proof (induction i c t data rule: chromaLoop.induct)
  case (1 i c t data)
  have lt: "i < length data" using "1.prems" by simp
  have unf: "chromaLoop i c t data = chromaLoop (i + 4) c t (chromaStep i c t data)"
    using lt by (subst chromaLoop.simps) simp
  show ?case
  proof (cases "i = 4 * k")
    case True
    have "chromaLoop i c t data ! (4 * k + 3) = chromaStep i c t data ! (4 * k + 3)"
      unfolding unf using True by (simp add: chromaLoop_below)
    also have "\<dots> = keyedAlpha (colourDiff (data ! (4 * k)) (data ! (4 * k + 1))
        (data ! (4 * k + 2)) c) t (data ! (4 * k + 3))"
      using True "1.prems" chromaStep_alpha [of i data c t] by simp
    finally show ?thesis .
  next
    case False
    obtain m where m: "i = 4 * m" using "1.prems"(1) by (auto simp: dvd_def)
    have le: "i + 4 \<le> 4 * k" using False "1.prems"(2) m by simp
    have d4: "4 dvd i + 4" using "1.prems"(1) by simp
    have same: "chromaStep i c t data ! j = data ! j" if "4 * k \<le> j" for j
      using that le by (simp add: chromaStep_other)
    have "chromaLoop (i + 4) c t (chromaStep i c t data) ! (4 * k + 3)
        = keyedAlpha (colourDiff (chromaStep i c t data ! (4 * k))
            (chromaStep i c t data ! (4 * k + 1)) (chromaStep i c t data ! (4 * k + 2)) c) t
            (chromaStep i c t data ! (4 * k + 3))"
      using "1.IH" [OF lt d4 le] "1.prems"(3) by (simp add: length_chromaStep)
    then show ?thesis
      unfolding unf by (simp add: same)
  qed
qed


subsection \<open>The feather value\<close>

lemma featherWidth_nonneg: "0 \<le> featherWidth"
  unfolding featherWidth_def by (rule dbl_nonneg) simp

lemma featherValue_nonneg:
  assumes "\<not> d < tol"
  shows "0 \<le> featherValue d tol"
proof -
  have "0 \<le> dbl (d - tol)" using assms by (intro dbl_nonneg) simp
  then have "0 \<le> dbl (d - tol) / featherWidth" using featherWidth_nonneg by simp
  then have "0 \<le> dbl (dbl (d - tol) / featherWidth)" by (rule dbl_nonneg)
  then have "0 \<le> dbl (dbl (d - tol) / featherWidth) * 255" by simp
  then show ?thesis unfolding featherValue_def by (rule dbl_nonneg)
qed

lemma featherValue_mono:
  assumes "\<not> d1 < tol" and "d1 \<le> d2"
  shows "featherValue d1 tol \<le> featherValue d2 tol"
proof -
  have "0 \<le> d1 - tol" "d1 - tol \<le> d2 - tol" using assms by simp_all
  then have a: "dbl (d1 - tol) \<le> dbl (d2 - tol)" by (rule dbl_mono)
  have a0: "0 \<le> dbl (d1 - tol)" using assms(1) by (intro dbl_nonneg) simp
  have b: "dbl (d1 - tol) / featherWidth \<le> dbl (d2 - tol) / featherWidth"
    using a featherWidth_nonneg by (rule divide_right_mono)
  have b0: "0 \<le> dbl (d1 - tol) / featherWidth" using a0 featherWidth_nonneg by simp
  have c: "dbl (dbl (d1 - tol) / featherWidth) \<le> dbl (dbl (d2 - tol) / featherWidth)"
    using b0 b by (rule dbl_mono)
  have c0: "0 \<le> dbl (dbl (d1 - tol) / featherWidth)" using b0 by (rule dbl_nonneg)
  have "0 \<le> dbl (dbl (d1 - tol) / featherWidth) * 255"
    "dbl (dbl (d1 - tol) / featherWidth) * 255 \<le> dbl (dbl (d2 - tol) / featherWidth) * 255"
    using c c0 by simp_all
  then show ?thesis unfolding featherValue_def by (rule dbl_mono)
qed

lemma featherValue_start: "featherValue tol tol = 0"
  by (simp add: featherValue_def dbl_0)

lemma keyedAlpha_band:
  assumes "\<not> d < tol" and "d < dbl (tol + featherWidth)"
  shows "keyedAlpha d tol a = ToUint8Clamp (featherValue d tol)"
  using assms by (simp add: keyedAlpha_def)

lemma keyedAlpha_near:
  assumes "\<not> d < tol" and "d < dbl (tol + featherWidth)"
  shows "\<bar>of_int (uint (keyedAlpha d tol a)) - min (featherValue d tol) 255\<bar> \<le> 1 / 2"
proof -
  have "max (featherValue d tol) 0 = featherValue d tol"
    using featherValue_nonneg [OF assms(1)] by simp
  then show ?thesis
    unfolding keyedAlpha_band [OF assms] uint_ToUint8Clamp
    using ToUint8ClampInt_near [of "featherValue d tol"] by simp
qed

subsection \<open>Concrete pixels\<close>

lemma sqrt_squares: "sqrt 2025 = 45" "sqrt 2401 = 49"
  by (rule real_sqrt_unique; simp)+

lemma maxDistance_val: "maxDistance = dval 7769940810237215 8"
  unfolding maxDistance_def by (rule dbl_eqI) simp_all

lemma featherWidth_val: "featherWidth = dval 7205759403792794 (- 5)"
  unfolding featherWidth_def by (rule dbl_eqI) simp_all

lemma tenth_val: "tenth = dval 7205759403792794 (- 4)"
  unfolding tenth_def by (rule dbl_eqI) simp_all

lemma nearTie_val: "nearTie = dval 6458602969160159 (- 4)"
  unfolding nearTie_def by (rule dbl_eqI) simp_all

lemma diff_45: "colourDiff 45 0 0 black = dval 7341661719624962 (- 4)"
proof -
  have s: "sqrt ((byteNum 45 - byteNum (rT black))\<^sup>2 + (byteNum 0 - byteNum (gT black))\<^sup>2
                      + (byteNum 0 - byteNum (bT black))\<^sup>2) = 45"
    by (simp add: byteNum_def black_def sqrt_squares)
  have r1: "dbl 45 = dval 6333186975989760 5"
    by (rule dbl_eqI) simp_all
  have r2: "dbl (dval 6333186975989760 5 / maxDistance) = dval 7341661719624962 (- 4)"
    by (rule dbl_eqI) (simp_all add: maxDistance_val dval_def)
  show ?thesis
    unfolding colourDiff_def s r1 r2 ..
qed

lemma diff_45_1: "colourDiff 45 1 0 black = dval 7343474251863324 (- 4)"
proof -
  have s: "sqrt ((byteNum 45 - byteNum (rT black))\<^sup>2 + (byteNum 1 - byteNum (gT black))\<^sup>2
                      + (byteNum 0 - byteNum (bT black))\<^sup>2) = sqrt 2026"
    by (simp add: byteNum_def black_def)
  have lo: "(6334750532852489 - 1 / 2) / 140737488355328 < sqrt 2026"
    by (rule real_less_rsqrt) (simp add: power2_eq_square)
  have hi: "sqrt 2026 < (6334750532852489 + 1 / 2) / 140737488355328"
    by (rule real_less_lsqrt) (simp_all add: power2_eq_square)
  have r1: "dbl (sqrt 2026) = dval 6334750532852489 5"
    by (rule dbl_eqI) (use lo hi in \<open>simp_all add: field_simps\<close>)
  have r2: "dbl (dval 6334750532852489 5 / maxDistance) = dval 7343474251863324 (- 4)"
    by (rule dbl_eqI) (simp_all add: maxDistance_val dval_def)
  show ?thesis
    unfolding colourDiff_def s r1 r2 ..
qed

lemma diff_onePixel: "colourDiff 15 23 45 dusk = dval 7994253872480514 (- 4)"
proof -
  have s: "sqrt ((byteNum 15 - byteNum (rT dusk))\<^sup>2 + (byteNum 23 - byteNum (gT dusk))\<^sup>2
                      + (byteNum 45 - byteNum (bT dusk))\<^sup>2) = 49"
    by (simp add: byteNum_def dusk_def sqrt_squares)
  have r1: "dbl 49 = dval 6896136929411072 5"
    by (rule dbl_eqI) simp_all
  have r2: "dbl (dval 6896136929411072 5 / maxDistance) = dval 7994253872480514 (- 4)"
    by (rule dbl_eqI) (simp_all add: maxDistance_val dval_def)
  show ?thesis
    unfolding colourDiff_def s r1 r2 ..
qed

lemma a45_feather: "featherValue (dval 7341661719624962 (- 4)) tenth = dval 5414857896437944 3"
proof -
  have f1: "dbl (dval 7341661719624962 (- 4) - tenth) = dval 8697748213258752 (- 10)"
    by (rule dbl_eqI) (simp_all add: tenth_val dval_def)
  have f2: "dbl (dval 8697748213258752 (- 10) / featherWidth) = dval 5436092633286720 (- 5)"
    by (rule dbl_eqI) (simp_all add: featherWidth_val dval_def)
  have f3: "dbl (dval 5436092633286720 (- 5) * 255) = dval 5414857896437944 3"
    by (rule dbl_eqI) (simp_all add: dval_def)
  show ?thesis
    unfolding featherValue_def f1 f2 f3 ..
qed

lemma a45_band: "\<not> dval 7341661719624962 (- 4) < tenth" "dval 7341661719624962 (- 4) < dbl (tenth + featherWidth)"
proof -
  show "\<not> dval 7341661719624962 (- 4) < tenth"
    by (simp add: tenth_val dval_def)
  have b: "dbl (tenth + featherWidth) = dval 5404319552844596 (- 3)"
    by (rule dbl_tie_up) (simp_all add: tenth_val featherWidth_val dval_def)
  show "dval 7341661719624962 (- 4) < dbl (tenth + featherWidth)"
    unfolding b by (simp add: dval_def)
qed

lemma a45_byte: "ToUint8ClampInt (dval 5414857896437944 3) = 10"
  by (rule ToUint8ClampInt_eqI) (simp_all add: dval_def)

lemma a45_keyed: "keyedAlpha (dval 7341661719624962 (- 4)) tenth a = 10"
proof -
  have "keyedAlpha (dval 7341661719624962 (- 4)) tenth a = ToUint8Clamp (featherValue (dval 7341661719624962 (- 4)) tenth)"
    by (simp only: keyedAlpha_def a45_band if_False if_True)
  also have "\<dots> = word_of_int 10"
    unfolding a45_feather ToUint8Clamp_def a45_byte ..
  finally show ?thesis by simp
qed

lemma b45_feather: "featherValue (dval 7343474251863324 (- 4)) tenth = dval 5487075977810180 3"
proof -
  have f1: "dbl (dval 7343474251863324 (- 4) - tenth) = dval 8813750276513920 (- 10)"
    by (rule dbl_eqI) (simp_all add: tenth_val dval_def)
  have f2: "dbl (dval 8813750276513920 (- 10) / featherWidth) = dval 5508593922821200 (- 5)"
    by (rule dbl_eqI) (simp_all add: featherWidth_val dval_def)
  have f3: "dbl (dval 5508593922821200 (- 5) * 255) = dval 5487075977810180 3"
    by (rule dbl_eqI) (simp_all add: dval_def)
  show ?thesis
    unfolding featherValue_def f1 f2 f3 ..
qed

lemma b45_band: "\<not> dval 7343474251863324 (- 4) < tenth" "dval 7343474251863324 (- 4) < dbl (tenth + featherWidth)"
proof -
  show "\<not> dval 7343474251863324 (- 4) < tenth"
    by (simp add: tenth_val dval_def)
  have b: "dbl (tenth + featherWidth) = dval 5404319552844596 (- 3)"
    by (rule dbl_tie_up) (simp_all add: tenth_val featherWidth_val dval_def)
  show "dval 7343474251863324 (- 4) < dbl (tenth + featherWidth)"
    unfolding b by (simp add: dval_def)
qed

lemma b45_byte: "ToUint8ClampInt (dval 5487075977810180 3) = 10"
  by (rule ToUint8ClampInt_eqI) (simp_all add: dval_def)

lemma b45_keyed: "keyedAlpha (dval 7343474251863324 (- 4)) tenth a = 10"
proof -
  have "keyedAlpha (dval 7343474251863324 (- 4)) tenth a = ToUint8Clamp (featherValue (dval 7343474251863324 (- 4)) tenth)"
    by (simp only: keyedAlpha_def b45_band if_False if_True)
  also have "\<dots> = word_of_int 10"
    unfolding b45_feather ToUint8Clamp_def b45_byte ..
  finally show ?thesis by simp
qed

lemma p49_feather: "featherValue (dval 7994253872480514 (- 4)) tenth = dval 7854144121694086 5"
proof -
  have f1: "dbl (dval 7994253872480514 (- 4) - tenth) = dval 6307955749501760 (- 7)"
    by (rule dbl_eqI) (simp_all add: tenth_val dval_def)
  have f2: "dbl (dval 6307955749501760 (- 7) / featherWidth) = dval 7884944686877200 (- 3)"
    by (rule dbl_eqI) (simp_all add: featherWidth_val dval_def)
  have f3: "dbl (dval 7884944686877200 (- 3) * 255) = dval 7854144121694086 5"
    by (rule dbl_eqI) (simp_all add: dval_def)
  show ?thesis
    unfolding featherValue_def f1 f2 f3 ..
qed

lemma p49_band: "\<not> dval 7994253872480514 (- 4) < tenth" "dval 7994253872480514 (- 4) < dbl (tenth + featherWidth)"
proof -
  show "\<not> dval 7994253872480514 (- 4) < tenth"
    by (simp add: tenth_val dval_def)
  have b: "dbl (tenth + featherWidth) = dval 5404319552844596 (- 3)"
    by (rule dbl_tie_up) (simp_all add: tenth_val featherWidth_val dval_def)
  show "dval 7994253872480514 (- 4) < dbl (tenth + featherWidth)"
    unfolding b by (simp add: dval_def)
qed

lemma p49_byte: "ToUint8ClampInt (dval 7854144121694086 5) = 56"
  by (rule ToUint8ClampInt_eqI) (simp_all add: dval_def)

lemma p49_keyed: "keyedAlpha (dval 7994253872480514 (- 4)) tenth a = 56"
proof -
  have "keyedAlpha (dval 7994253872480514 (- 4)) tenth a = ToUint8Clamp (featherValue (dval 7994253872480514 (- 4)) tenth)"
    by (simp only: keyedAlpha_def p49_band if_False if_True)
  also have "\<dots> = word_of_int 56"
    unfolding p49_feather ToUint8Clamp_def p49_byte ..
  finally show ?thesis by simp
qed

lemma n45_feather: "featherValue (dval 7341661719624962 (- 4)) nearTie = dval 8796093022207999 5"
proof -
  have f1: "dbl (dval 7341661719624962 (- 4) - nearTie) = dval 7064470003718424 (- 7)"
    by (rule dbl_eqI) (simp_all add: nearTie_val dval_def)
  have f2: "dbl (dval 7064470003718424 (- 7) / featherWidth) = dval 8830587504648030 (- 3)"
    by (rule dbl_eqI) (simp_all add: featherWidth_val dval_def)
  have f3: "dbl (dval 8830587504648030 (- 3) * 255) = dval 8796093022207999 5"
    by (rule dbl_eqI) (simp_all add: dval_def)
  show ?thesis
    unfolding featherValue_def f1 f2 f3 ..
qed

lemma n45_band: "\<not> dval 7341661719624962 (- 4) < nearTie" "dval 7341661719624962 (- 4) < dbl (nearTie + featherWidth)"
proof -
  show "\<not> dval 7341661719624962 (- 4) < nearTie"
    by (simp add: nearTie_val dval_def)
  have b: "dbl (nearTie + featherWidth) = dval 5030741335528278 (- 3)"
    by (rule dbl_eqI) (simp_all add: nearTie_val featherWidth_val dval_def)
  show "dval 7341661719624962 (- 4) < dbl (nearTie + featherWidth)"
    unfolding b by (simp add: dval_def)
qed

lemma n45_byte: "ToUint8ClampInt (dval 8796093022207999 5) = 62"
  by (rule ToUint8ClampInt_eqI) (simp_all add: dval_def)

lemma n45_keyed: "keyedAlpha (dval 7341661719624962 (- 4)) nearTie a = 62"
proof -
  have "keyedAlpha (dval 7341661719624962 (- 4)) nearTie a = ToUint8Clamp (featherValue (dval 7341661719624962 (- 4)) nearTie)"
    by (simp only: keyedAlpha_def n45_band if_False if_True)
  also have "\<dots> = word_of_int 62"
    unfolding n45_feather ToUint8Clamp_def n45_byte ..
  finally show ?thesis by simp
qed

lemma twoPixels_diffs:
  "pixelDiff twoPixels black 0 = dval 7341661719624962 (- 4)"
  "pixelDiff twoPixels black 1 = dval 7343474251863324 (- 4)"
  by (simp_all add: pixelDiff_def twoPixels_def diff_45 diff_45_1)

lemma twoPixels_length: "4 * 0 + 3 < length twoPixels" "4 * 1 + 3 < length twoPixels"
  by (simp_all add: twoPixels_def)

lemma twoPixels_band:
  "\<not> pixelDiff twoPixels black 0 < tenth"
  "pixelDiff twoPixels black 0 \<le> pixelDiff twoPixels black 1"
  "pixelDiff twoPixels black 0 < pixelDiff twoPixels black 1"
  "pixelDiff twoPixels black 1 < dbl (tenth + featherWidth)"
  "tenth < pixelDiff twoPixels black 0"
  unfolding twoPixels_diffs
  using a45_band b45_band by (simp_all add: dval_def tenth_val)

lemma twoPixels_alpha:
  "chromaLoop 0 black tenth twoPixels ! (4 * 0 + 3) = 10"
  "chromaLoop 0 black tenth twoPixels ! (4 * 1 + 3) = 10"
proof -
  have "chromaLoop 0 black tenth twoPixels ! (4 * 0 + 3)
      = keyedAlpha (pixelDiff twoPixels black 0) tenth (twoPixels ! (4 * 0 + 3))"
    unfolding pixelDiff_def by (rule chromaLoop_alpha) (simp_all add: twoPixels_def)
  then show "chromaLoop 0 black tenth twoPixels ! (4 * 0 + 3) = 10"
    unfolding twoPixels_diffs a45_keyed .
  have "chromaLoop 0 black tenth twoPixels ! (4 * 1 + 3)
      = keyedAlpha (pixelDiff twoPixels black 1) tenth (twoPixels ! (4 * 1 + 3))"
    unfolding pixelDiff_def by (rule chromaLoop_alpha) (simp_all add: twoPixels_def)
  then show "chromaLoop 0 black tenth twoPixels ! (4 * 1 + 3) = 10"
    unfolding twoPixels_diffs b45_keyed .
qed



lemma onePixel_facts:
  "4 * 0 + 3 < length onePixel"
  "pixelDiff onePixel dusk 0 = dval 7994253872480514 (- 4)"
  by (simp_all add: pixelDiff_def onePixel_def diff_onePixel)

lemma onePixel_alpha: "chromaLoop 0 dusk tenth onePixel ! (4 * 0 + 3) = 56"
proof -
  have "chromaLoop 0 dusk tenth onePixel ! (4 * 0 + 3)
      = keyedAlpha (pixelDiff onePixel dusk 0) tenth (onePixel ! (4 * 0 + 3))"
    unfolding pixelDiff_def by (rule chromaLoop_alpha) (simp_all add: onePixel_def)
  then show ?thesis
    unfolding onePixel_facts p49_keyed .
qed

text \<open>
  A value just below a tie: with the target black and the tolerance the double nearest
  to 0.0896311215409251, the pixel (45, 0, 0) has the feather value 62.49999999999999
  and gets the alpha 62.
\<close>

lemma near_tie_alpha: "chromaLoop 0 black nearTie [45, 0, 0, 255] ! (4 * 0 + 3) = 62"
proof -
  have "chromaLoop 0 black nearTie [45, 0, 0, 255] ! (4 * 0 + 3)
      = keyedAlpha (colourDiff ([45, 0, 0, 255] ! (4 * 0)) ([45, 0, 0, 255] ! (4 * 0 + 1))
          ([45, 0, 0, 255] ! (4 * 0 + 2)) black) nearTie ([45, 0, 0, 255] ! (4 * 0 + 3))"
    by (rule chromaLoop_alpha) simp_all
  also have "\<dots> = keyedAlpha (colourDiff 45 0 0 black) nearTie 255"
    by simp
  finally show ?thesis
    unfolding diff_45 n45_keyed .
qed

section \<open>Chroma key: the claims\<close>

text \<open>
  Claim C1, as amended. For every pixel \<open>k\<close> of the frame read back from the source,
  every target colour and every tolerance, \<^verbatim>\<open>applyChromaKey\<close> draws a buffer of the same
  size in which the pixel's three colour bytes are those of the input. With \<open>diff\<close> the
  Euclidean distance between the pixel's colour and the target (the square root of the
  sum of the three squared channel differences, rounded to a double) divided by 441.67
  in double arithmetic, the pixel's alpha byte is 0 when \<open>diff < tolerance\<close>; when
  \<open>diff\<close> is not below the tolerance and is below the double sum \<open>tolerance + 0.05\<close>, it
  is the number \<open>((diff - tolerance) / 0.05) * 255\<close>, each operation rounded to a double,
  stored into the byte-valued alpha channel, which caps it at 255 and rounds it to the
  nearest integer (so the byte is within 1/2 of the capped number); and it is the input
  alpha otherwise.
\<close>

theorem chroma_key_pixel:
  assumes "4 * k + 3 < length (pixels el)"
  shows "\<exists>out diff. applyChromaKey pixels ga el x y w h c tol
             = DrawImage (SrcBuffer (natWidth el) (natHeight el) out) x y w h ga
     \<and> diff = dbl (dbl (sqrt ((byteNum (pixels el ! (4 * k)) - byteNum (rT c))\<^sup>2
                              + (byteNum (pixels el ! (4 * k + 1)) - byteNum (gT c))\<^sup>2
                              + (byteNum (pixels el ! (4 * k + 2)) - byteNum (bT c))\<^sup>2))
                    / dbl 441.67)
     \<and> length out = length (pixels el)
     \<and> out ! (4 * k) = pixels el ! (4 * k)
     \<and> out ! (4 * k + 1) = pixels el ! (4 * k + 1)
     \<and> out ! (4 * k + 2) = pixels el ! (4 * k + 2)
     \<and> out ! (4 * k + 3) =
         (if diff < tol then 0
          else if diff < dbl (tol + dbl 0.05)
            then ToUint8Clamp (dbl (dbl (dbl (diff - tol) / dbl 0.05) * 255))
          else pixels el ! (4 * k + 3))
     \<and> (\<not> diff < tol \<and> diff < dbl (tol + dbl 0.05) \<longrightarrow>
          \<bar>of_int (uint (out ! (4 * k + 3)))
             - min (dbl (dbl (dbl (diff - tol) / dbl 0.05) * 255)) 255\<bar> \<le> 1 / 2)"
proof -
  let ?out = "chromaLoop 0 c tol (pixels el)"
  let ?d = "pixelDiff (pixels el) c k"
  have rgb: "?out ! (4 * k) = pixels el ! (4 * k)"
    "?out ! (4 * k + 1) = pixels el ! (4 * k + 1)"
    "?out ! (4 * k + 2) = pixels el ! (4 * k + 2)"
    by (rule chromaLoop_colour_bytes; simp; presburger)+
  have al: "?out ! (4 * k + 3) = keyedAlpha ?d tol (pixels el ! (4 * k + 3))"
    unfolding pixelDiff_def using assms by (intro chromaLoop_alpha) simp_all
  have near: "\<bar>of_int (uint (?out ! (4 * k + 3))) - min (featherValue ?d tol) 255\<bar> \<le> 1 / 2"
    if "\<not> ?d < tol" "?d < dbl (tol + featherWidth)"
    unfolding al using that by (rule keyedAlpha_near)
  have d: "?d = dbl (dbl (sqrt ((byteNum (pixels el ! (4 * k)) - byteNum (rT c))\<^sup>2
                              + (byteNum (pixels el ! (4 * k + 1)) - byteNum (gT c))\<^sup>2
                              + (byteNum (pixels el ! (4 * k + 2)) - byteNum (bT c))\<^sup>2))
                    / dbl 441.67)"
    unfolding pixelDiff_def colourDiff_def maxDistance_def ..
  have a: "applyChromaKey pixels ga el x y w h c tol
      = DrawImage (SrcBuffer (natWidth el) (natHeight el) ?out) x y w h ga"
    by (simp add: applyChromaKey_def)
  have al': "?out ! (4 * k + 3) =
         (if ?d < tol then 0
          else if ?d < dbl (tol + dbl 0.05)
            then ToUint8Clamp (dbl (dbl (dbl (?d - tol) / dbl 0.05) * 255))
          else pixels el ! (4 * k + 3))"
    unfolding al keyedAlpha_def featherValue_def featherWidth_def ..
  have near': "\<not> ?d < tol \<and> ?d < dbl (tol + dbl 0.05) \<longrightarrow>
          \<bar>of_int (uint (?out ! (4 * k + 3)))
             - min (dbl (dbl (dbl (?d - tol) / dbl 0.05) * 255)) 255\<bar> \<le> 1 / 2"
    using near unfolding featherValue_def featherWidth_def by blast
  show ?thesis
    apply (rule exI [of _ ?out])
    apply (rule exI [of _ ?d])
    using a d length_chromaLoop [of 0 c tol "pixels el"] rgb al' near'
    by blast
qed

theorem chroma_key_pixel_witness:
  "4 * 0 + 3 < length onePixel
   \<and> (\<exists>out. applyChromaKey (\<lambda>el. onePixel) 1 (ImageEl 1 1) 0 0 1 1 dusk tenth
               = DrawImage (SrcBuffer 1 1 out) 0 0 1 1 1
          \<and> length out = 4
          \<and> out ! 0 = 15 \<and> out ! 1 = 23 \<and> out ! 2 = 45 \<and> out ! 3 = 56)"
proof -
  have len: "4 * 0 + 3 < length onePixel" by (rule onePixel_facts)
  from chroma_key_pixel [of 0 "\<lambda>el. onePixel" "ImageEl 1 1" 1 0 0 1 1 dusk tenth, OF len]
  obtain out diff where
    o: "applyChromaKey (\<lambda>el. onePixel) 1 (ImageEl 1 1) 0 0 1 1 dusk tenth
          = DrawImage (SrcBuffer (natWidth (ImageEl 1 1)) (natHeight (ImageEl 1 1)) out) 0 0 1 1 1"
    and d: "diff = dbl (dbl (sqrt ((byteNum (onePixel ! (4 * 0)) - byteNum (rT dusk))\<^sup>2
                              + (byteNum (onePixel ! (4 * 0 + 1)) - byteNum (gT dusk))\<^sup>2
                              + (byteNum (onePixel ! (4 * 0 + 2)) - byteNum (bT dusk))\<^sup>2))
                    / dbl 441.67)"
    and l: "length out = length onePixel"
    and r: "out ! (4 * 0) = onePixel ! (4 * 0)" "out ! (4 * 0 + 1) = onePixel ! (4 * 0 + 1)"
      "out ! (4 * 0 + 2) = onePixel ! (4 * 0 + 2)"
    and a: "out ! (4 * 0 + 3) =
         (if diff < tenth then 0
          else if diff < dbl (tenth + dbl 0.05)
            then ToUint8Clamp (dbl (dbl (dbl (diff - tenth) / dbl 0.05) * 255))
          else onePixel ! (4 * 0 + 3))"
    by blast
  have "diff = pixelDiff onePixel dusk 0"
    unfolding d pixelDiff_def colourDiff_def maxDistance_def by simp
  then have dv: "diff = dval 7994253872480514 (- 4)"
    unfolding onePixel_facts .
  have "out ! (4 * 0 + 3) = keyedAlpha diff tenth (onePixel ! (4 * 0 + 3))"
    unfolding a keyedAlpha_def featherValue_def featherWidth_def ..
  then have a56: "out ! (4 * 0 + 3) = 56"
    unfolding dv p49_keyed .
  have sz: "natWidth (ImageEl 1 1) = 1" "natHeight (ImageEl 1 1) = 1"
    by (simp_all add: natWidth_def natHeight_def videoWidth_def videoHeight_def
          elWidth_def elHeight_def)
  have "length out = 4 \<and> out ! 0 = 15 \<and> out ! 1 = 23 \<and> out ! 2 = 45 \<and> out ! 3 = 56"
    using l r a56 by (simp add: onePixel_def eval_nat_numeral)
  with o len show ?thesis
    unfolding sz by blast
qed

text \<open>
  Claim C1 as stated fails: the alpha of a feathered pixel is not the number
  \<open>((diff - tolerance) / 0.05) * 255\<close> but that number stored into a byte. With the target
  (1, 2, 3) and the tolerance 0.1 the pixel (15, 23, 45), at distance 49 from the target,
  is in the feather band; the expression has the value 55.80705051282625 in double
  arithmetic (and is not 56 over the exact reals either), and the alpha is 56.
\<close>

theorem feather_alpha_is_rounded:
  "\<not> pixelDiff onePixel dusk 0 < tenth
   \<and> pixelDiff onePixel dusk 0 < dbl (tenth + featherWidth)
   \<and> chromaLoop 0 dusk tenth onePixel ! (4 * 0 + 3) = 56
   \<and> featherValue (pixelDiff onePixel dusk 0) tenth = dval 7854144121694086 5
   \<and> dval 7854144121694086 5 < 56
   \<and> ((49 / 441.67 - 0.1) / 0.05) * 255 < (56 :: real)"
  unfolding onePixel_facts onePixel_alpha p49_feather
  using p49_band by (simp add: dval_def)

text \<open>
  Claim C8, as amended. For two pixels of a frame whose differences lie in the feather
  band, the first difference not above the second (\<open>dj\<close> not below the tolerance,
  \<open>dj \<le> dk\<close>, \<open>dk\<close> below the double sum \<open>tolerance + 0.05\<close>), the alpha bytes that the
  engine leaves are ordered the same way: the alpha is non-decreasing in \<open>diff\<close>. Each is
  the value \<open>((diff - tolerance) / 0.05) * 255\<close> of double arithmetic, capped at 255 and
  rounded to the nearest integer by the byte store, so within 1/2 of the capped value;
  and it is 0 where \<open>diff\<close> equals the tolerance.
\<close>

theorem feather_alpha_nondecreasing:
  assumes "4 * j + 3 < length data" and "4 * k + 3 < length data"
    and "\<not> pixelDiff data c j < tol" and "pixelDiff data c j \<le> pixelDiff data c k"
    and "pixelDiff data c k < dbl (tol + dbl 0.05)"
  shows "uint (chromaLoop 0 c tol data ! (4 * j + 3)) \<le> uint (chromaLoop 0 c tol data ! (4 * k + 3))
    \<and> chromaLoop 0 c tol data ! (4 * j + 3)
        = ToUint8Clamp (dbl (dbl (dbl (pixelDiff data c j - tol) / dbl 0.05) * 255))
    \<and> chromaLoop 0 c tol data ! (4 * k + 3)
        = ToUint8Clamp (dbl (dbl (dbl (pixelDiff data c k - tol) / dbl 0.05) * 255))
    \<and> \<bar>of_int (uint (chromaLoop 0 c tol data ! (4 * j + 3)))
         - min (dbl (dbl (dbl (pixelDiff data c j - tol) / dbl 0.05) * 255)) 255\<bar> \<le> 1 / 2
    \<and> \<bar>of_int (uint (chromaLoop 0 c tol data ! (4 * k + 3)))
         - min (dbl (dbl (dbl (pixelDiff data c k - tol) / dbl 0.05) * 255)) 255\<bar> \<le> 1 / 2
    \<and> (pixelDiff data c j = tol \<longrightarrow> chromaLoop 0 c tol data ! (4 * j + 3) = 0)"
proof -
  let ?dj = "pixelDiff data c j" and ?dk = "pixelDiff data c k"
  have bj: "\<not> ?dj < tol" "?dj < dbl (tol + featherWidth)"
    and bk: "\<not> ?dk < tol" "?dk < dbl (tol + featherWidth)"
    using assms unfolding featherWidth_def by simp_all
  have aj: "chromaLoop 0 c tol data ! (4 * j + 3) = keyedAlpha ?dj tol (data ! (4 * j + 3))"
    unfolding pixelDiff_def using assms(1) by (intro chromaLoop_alpha) simp_all
  have ak: "chromaLoop 0 c tol data ! (4 * k + 3) = keyedAlpha ?dk tol (data ! (4 * k + 3))"
    unfolding pixelDiff_def using assms(2) by (intro chromaLoop_alpha) simp_all
  have kj: "chromaLoop 0 c tol data ! (4 * j + 3) = ToUint8Clamp (featherValue ?dj tol)"
    unfolding aj using bj by (rule keyedAlpha_band)
  have kk: "chromaLoop 0 c tol data ! (4 * k + 3) = ToUint8Clamp (featherValue ?dk tol)"
    unfolding ak using bk by (rule keyedAlpha_band)
  have "featherValue ?dj tol \<le> featherValue ?dk tol"
    using bj(1) assms(4) by (rule featherValue_mono)
  then have mono: "uint (chromaLoop 0 c tol data ! (4 * j + 3))
      \<le> uint (chromaLoop 0 c tol data ! (4 * k + 3))"
    unfolding kj kk uint_ToUint8Clamp by (rule ToUint8ClampInt_mono)
  have nj: "\<bar>of_int (uint (chromaLoop 0 c tol data ! (4 * j + 3)))
      - min (featherValue ?dj tol) 255\<bar> \<le> 1 / 2"
    unfolding aj using bj by (rule keyedAlpha_near)
  have nk: "\<bar>of_int (uint (chromaLoop 0 c tol data ! (4 * k + 3)))
      - min (featherValue ?dk tol) 255\<bar> \<le> 1 / 2"
    unfolding ak using bk by (rule keyedAlpha_near)
  have z: "chromaLoop 0 c tol data ! (4 * j + 3) = 0" if "?dj = tol"
  proof -
    have "ToUint8ClampInt 0 = 0" by (rule ToUint8ClampInt_eqI) simp_all
    then show ?thesis
      unfolding kj that featherValue_start ToUint8Clamp_def by simp
  qed
  from mono kj kk nj nk z show ?thesis
    unfolding featherValue_def featherWidth_def by blast
qed

theorem feather_alpha_nondecreasing_witness:
  "4 * 0 + 3 < length twoPixels \<and> 4 * 1 + 3 < length twoPixels
   \<and> \<not> pixelDiff twoPixels black 0 < tenth
   \<and> pixelDiff twoPixels black 0 \<le> pixelDiff twoPixels black 1
   \<and> pixelDiff twoPixels black 1 < dbl (tenth + dbl 0.05)
   \<and> uint (chromaLoop 0 black tenth twoPixels ! (4 * 0 + 3))
       \<le> uint (chromaLoop 0 black tenth twoPixels ! (4 * 1 + 3))
   \<and> chromaLoop 0 black tenth twoPixels ! (4 * 0 + 3) = 10
   \<and> ToUint8Clamp (dbl (dbl (dbl (pixelDiff twoPixels black 0 - tenth) / dbl 0.05) * 255)) = 10"
proof -
  have h: "\<not> pixelDiff twoPixels black 0 < tenth"
    "pixelDiff twoPixels black 0 \<le> pixelDiff twoPixels black 1"
    "pixelDiff twoPixels black 1 < dbl (tenth + dbl 0.05)"
    using twoPixels_band unfolding featherWidth_def by blast+
  from feather_alpha_nondecreasing [OF twoPixels_length h] twoPixels_length h
    twoPixels_alpha(1)
  show ?thesis
    by metis
qed

text \<open>
  Claim C8 as stated fails: with the target black and tolerance 0.1 the pixels (45, 0, 0)
  and (45, 1, 0) have different differences, both strictly inside the feather band, and
  get the same alpha, 10; the alpha is not strictly increasing in \<open>diff\<close>.
\<close>

theorem feather_alpha_not_strict:
  "tenth < pixelDiff twoPixels black 0
   \<and> pixelDiff twoPixels black 0 < pixelDiff twoPixels black 1
   \<and> pixelDiff twoPixels black 1 < dbl (tenth + featherWidth)
   \<and> chromaLoop 0 black tenth twoPixels ! (4 * 0 + 3) = chromaLoop 0 black tenth twoPixels ! (4 * 1 + 3)
   \<and> \<not> uint (chromaLoop 0 black tenth twoPixels ! (4 * 0 + 3))
        < uint (chromaLoop 0 black tenth twoPixels ! (4 * 1 + 3))"
  unfolding twoPixels_alpha
  using twoPixels_band by simp



section \<open>Export progress\<close>

lemma jsRound_mono: "a \<le> b \<Longrightarrow> jsRound a \<le> jsRound b"
  unfolding jsRound_def by (intro floor_mono) simp

lemma progressAt_mono:
  assumes "0 < d" "a \<le> b"
  shows "progressAt (Finite d) a \<le> progressAt (Finite d) b"
proof -
  have q: "real a / d \<le> real b / d"
    using assms by (simp add: divide_right_mono)
  have q0: "0 \<le> real a / d" using assms by simp
  have r: "dbl (real a / d) \<le> dbl (real b / d)" using q0 q by (rule dbl_mono)
  have r0: "0 \<le> dbl (real a / d)" using q0 by (rule dbl_nonneg)
  have "0 \<le> dbl (real a / d) * 100" "dbl (real a / d) * 100 \<le> dbl (real b / d) * 100"
    using r r0 by simp_all
  then have "dbl (dbl (real a / d) * 100) \<le> dbl (dbl (real b / d) * 100)"
    by (rule dbl_mono)
  then have "jsRound (dbl (dbl (real a / d) * 100)) \<le> jsRound (dbl (dbl (real b / d) * 100))"
    by (rule jsRound_mono)
  then show ?thesis
    using assms(1) by (simp add: progressAt_def)
qed

lemma progressAt_le: "progressAt target ms \<le> 99"
  by (simp add: progressAt_def split: jsnum.splits)

lemma tickInv_start: "tickInv (exportDuration s) 0 (startExport s)"
  by (simp add: tickInv_def startExport_def)

lemma tickInv_tick:
  assumes "tickInv target n e"
  shows "tickInv target (Suc n) (tick e)"
proof (cases "stopped e")
  case True
  then have te: "tick e = e" by (simp add: tick_def)
  have "length (reported e) \<le> Suc n" using assms by (simp add: tickInv_def)
  with assms True show ?thesis unfolding te tickInv_def by blast
next
  case False
  let ?el = "elapsed e + 100"
  let ?r = "reported e @ [progressAt (exportTarget e) ?el]"
  have t: "tick e = e\<lparr>elapsed := ?el, reported := ?r, stopped := reached (exportTarget e) ?el\<rparr>"
    using False by (simp add: tick_def Let_def progressAt_def reached_def)
  have tg: "exportTarget e = target" and el: "elapsed e = 100 * length (reported e)"
    and len: "length (reported e) = n"
    and old: "\<forall>i < length (reported e). reported e ! i = progressAt target (100 * (i + 1))"
    and before: "\<forall>i. i + 1 < length (reported e) \<longrightarrow> \<not> reached target (100 * (i + 1))"
    and st: "stopped e \<longleftrightarrow> reported e \<noteq> [] \<and> reached target (elapsed e)"
    using assms False unfolding tickInv_def by blast+
  have el': "?el = 100 * length ?r" using el by simp
  have new: "\<forall>i < length ?r. ?r ! i = progressAt target (100 * (i + 1))"
  proof (intro allI impI)
    fix i assume "i < length ?r"
    then consider "i < length (reported e)" | "i = length (reported e)" by fastforce
    then show "?r ! i = progressAt target (100 * (i + 1))"
    proof cases
      case 1
      then show ?thesis using old by (simp add: nth_append)
    next
      case 2
      have e1: "elapsed e + 100 = 100 * (i + 1)" using 2 el by simp
      have "?r ! i = progressAt (exportTarget e) ?el"
        using 2 by (simp add: nth_append)
      also have "\<dots> = progressAt target (100 * (i + 1))"
        unfolding tg e1 ..
      finally show ?thesis .
    qed
  qed
  have before': "\<forall>i. i + 1 < length ?r \<longrightarrow> \<not> reached target (100 * (i + 1))"
  proof (intro allI impI)
    fix i assume "i + 1 < length ?r"
    then consider "i + 1 < length (reported e)" | "i + 1 = length (reported e)" by fastforce
    then show "\<not> reached target (100 * (i + 1))"
    proof cases
      case 1
      then show ?thesis using before by simp
    next
      case 2
      then have "reported e \<noteq> []" by auto
      with st False have "\<not> reached target (elapsed e)" by simp
      then show ?thesis unfolding el 2 .
    qed
  qed
  have s1: "exportTarget (tick e) = target" "elapsed (tick e) = ?el"
    "reported (tick e) = ?r" "stopped (tick e) = reached target ?el"
    unfolding t using tg by simp_all
  show ?thesis
    unfolding tickInv_def s1
    using el' new before' len by simp
qed

lemma tickInv_funpow: "tickInv (exportDuration s) n ((tick ^^ n) (startExport s))"
  by (induction n) (simp_all add: tickInv_start tickInv_tick)

lemma sorted_reports:
  assumes "tickInv target n e"
  shows "sorted (reported e)"
proof -
  have f: "\<forall>i < length (reported e). reported e ! i = progressAt target (100 * (i + 1))"
    and before: "\<forall>i. i + 1 < length (reported e) \<longrightarrow> \<not> reached target (100 * (i + 1))"
    using assms by (simp_all add: tickInv_def)
  show ?thesis
    unfolding sorted_iff_nth_mono
  proof (intro allI impI)
    fix i j assume ij: "i \<le> j" "j < length (reported e)"
    then have ri: "reported e ! i = progressAt target (100 * (i + 1))"
      and rj: "reported e ! j = progressAt target (100 * (j + 1))"
      using f by simp_all
    show "reported e ! i \<le> reported e ! j"
    proof (cases "i = j")
      case True
      then show ?thesis by simp
    next
      case False
      with ij have "i + 1 < length (reported e)" by simp
      with before have nr: "\<not> reached target (100 * (i + 1))" by simp
      show ?thesis
      proof (cases target)
        case Infinity
        then show ?thesis unfolding ri rj by (simp add: progressAt_def)
      next
        case (Finite d)
        with nr have "0 < d" by (simp add: reached_def)
        then have "progressAt (Finite d) (100 * (i + 1)) \<le> progressAt (Finite d) (100 * (j + 1))"
          using ij(1) by (intro progressAt_mono) simp_all
        then show ?thesis unfolding ri rj Finite .
      qed
    qed
  qed
qed

subsection \<open>Concrete durations\<close>

lemma dbl_4000: "dbl 4000 = 4000"
proof -
  have "dbl 4000 = dval 8796093022208000 11"
    by (rule dbl_eqI) simp_all
  then show ?thesis by (simp add: dval_def)
qed

lemma dbl_5000: "dbl 5000 = 5000"
proof -
  have "dbl 5000 = dval 5497558138880000 12"
    by (rule dbl_eqI) simp_all
  then show ?thesis by (simp add: dval_def)
qed

lemma big: "(4000 :: real) < 2 ^ 1024" "(5000 :: real) < 2 ^ 1024"
proof -
  have "(2 :: real) ^ 13 \<le> 2 ^ 1024" by (rule power_increasing) simp_all
  then show "(4000 :: real) < 2 ^ 1024" "(5000 :: real) < 2 ^ 1024" by simp_all
qed

lemma timesThousand_4: "timesThousand (Finite 4) = Finite 4000"
  using big by (simp add: timesThousand_def dbl_4000)

lemma timesThousand_5: "timesThousand (Finite 5) = Finite 5000"
  using big by (simp add: timesThousand_def dbl_5000)

lemma backgroundClip_element:
  "element (layers (backgroundClip d) Background) = Some (VideoEl 640 360 (Some d))"
  by (simp add: backgroundClip_def handleUpload_def clip_is_video setupElement_layer)

lemma backgroundClip_4: "exportDuration (backgroundClip (Finite 4)) = Finite 4000"
  by (simp add: exportDuration_def backgroundClip_element elDuration_def jsOr_def timesThousand_4)

lemma backgroundClip_0: "exportDuration (backgroundClip (Finite 0)) = Finite 5000"
  by (simp add: exportDuration_def backgroundClip_element elDuration_def jsOr_def timesThousand_5)

lemma progress_2300: "progressAt (Finite 4000) 2300 = 57"
proof -
  have r: "dbl (2300 / 4000) = dval 5179139571476070 (- 1)"
    by (rule dbl_eqI) simp_all
  have p: "dbl (dval 5179139571476070 (- 1) * 100) = dval 8092405580431359 5"
    by (rule dbl_eqI) (simp_all add: dval_def)
  have j: "jsRound (dval 8092405580431359 5) = 57"
    by (simp add: jsRound_def dval_def floor_eq_iff)
  have "progressAt (Finite 4000) 2300 = min (jsRound (dbl (dbl (2300 / 4000) * 100))) 99"
    by (simp add: progressAt_def)
  also have "\<dots> = 57"
    unfolding r p j by simp
  finally show ?thesis .
qed

lemma progress_4000: "progressAt (Finite 4000) 4000 = 99"
proof -
  have r: "dbl 1 = dval 4503599627370496 0"
    by (rule dbl_eqI) simp_all
  have p: "dbl (dval 4503599627370496 0 * 100) = dval 7036874417766400 6"
    by (rule dbl_eqI) (simp_all add: dval_def)
  have j: "jsRound (dval 7036874417766400 6) = 100"
    by (simp add: jsRound_def dval_def floor_eq_iff)
  have "progressAt (Finite 4000) 4000 = min (jsRound (dbl (dbl 1 * 100))) 99"
    by (simp add: progressAt_def)
  also have "\<dots> = 99"
    unfolding r p j by simp
  finally show ?thesis .
qed

lemma progress_100_of_5000: "progressAt (Finite 5000) 100 = 2"
proof -
  have r: "dbl (100 / 5000) = dval 5764607523034235 (- 6)"
    by (rule dbl_eqI) simp_all
  have p: "dbl (dval 5764607523034235 (- 6) * 100) = dval 4503599627370496 1"
    by (rule dbl_eqI) (simp_all add: dval_def)
  have j: "jsRound (dval 4503599627370496 1) = 2"
    by (simp add: jsRound_def dval_def floor_eq_iff)
  have "progressAt (Finite 5000) 100 = min (jsRound (dbl (dbl (100 / 5000) * 100))) 99"
    by (simp add: progressAt_def)
  also have "\<dots> = 2"
    unfolding r p j by simp
  finally show ?thesis .
qed

text \<open>Over the exact reals the quotient of the 23rd run would round to 58.\<close>

lemma exact_2300: "min (jsRound ((2300 / 4000) * 100)) 99 = 58"
  by (simp add: jsRound_def floor_eq_iff)

text \<open>
  Claim C4, as amended. The export target is the background source's duration times 1000
  in double arithmetic (\<^verbatim>\<open>Infinity\<close> for an infinite duration or a product that overflows)
  when the background has a duration other than zero, and 5 seconds when there is no
  background, when the background has no numeric duration (an image, a placeholder, a
  video whose duration is not a number) and when its duration is zero. Run \<open>i\<close> of the
  timer callback, at \<open>elapsed = 100 * (i + 1)\<close>, reports
  \<open>min (round ((elapsed / target) * 100)) 99\<close> with the quotient and the product each
  rounded to a double (0 for an infinite target, 99 for a target of zero); the reports
  are non-decreasing, every report is below 100, every report but the last is made
  before \<open>elapsed \<ge> target\<close> holds, and the callback stops the timer at the first run with
  \<open>elapsed \<ge> target\<close> (never, for an infinite target). Time is counted in runs of the
  callback.
\<close>

theorem export_progress:
  "let dur = (case element (layers s Background) of None \<Rightarrow> None | Some el \<Rightarrow> elDuration el);
       T = exportDuration s;
       e = (tick ^^ n) (startExport s)
   in (\<forall>d. dur = Some (Finite d) \<and> d \<noteq> 0 \<longrightarrow>
          T = (if 2 ^ 1024 \<le> dbl (d * 1000) then Infinity else Finite (dbl (d * 1000))))
    \<and> (dur = Some Infinity \<longrightarrow> T = Infinity)
    \<and> (dur = None \<or> dur = Some (Finite 0) \<longrightarrow> T = Finite 5000)
    \<and> (\<forall>i < length (reported e).
          reported e ! i
            = (case T of
                 Infinity \<Rightarrow> 0
               | Finite d \<Rightarrow>
                   if d = 0 then 99
                   else min (jsRound (dbl (dbl (real (100 * (i + 1)) / d) * 100))) 99))
    \<and> sorted (reported e)
    \<and> (\<forall>p \<in> set (reported e). p < 100)
    \<and> elapsed e = 100 * length (reported e)
    \<and> length (reported e) \<le> n
    \<and> (\<forall>i. i + 1 < length (reported e) \<longrightarrow>
          (case T of Infinity \<Rightarrow> True | Finite d \<Rightarrow> real (100 * (i + 1)) < d))
    \<and> (stopped e \<longleftrightarrow>
          0 < n \<and> (case T of Infinity \<Rightarrow> False | Finite d \<Rightarrow> d \<le> real (elapsed e)))
    \<and> (\<not> stopped e \<longrightarrow> length (reported e) = n)"
proof -
  let ?dur = "case element (layers s Background) of None \<Rightarrow> None | Some el \<Rightarrow> elDuration el"
  let ?e = "(tick ^^ n) (startExport s)"
  let ?D = "exportDuration s"
  have inv: "tickInv ?D n ?e" by (rule tickInv_funpow)
  have el: "elapsed ?e = 100 * length (reported ?e)"
    and f: "\<forall>i < length (reported ?e). reported ?e ! i = progressAt ?D (100 * (i + 1))"
    and before: "\<forall>i. i + 1 < length (reported ?e) \<longrightarrow> \<not> reached ?D (100 * (i + 1))"
    and st: "stopped ?e \<longleftrightarrow> reported ?e \<noteq> [] \<and> reached ?D (elapsed ?e)"
    and le: "length (reported ?e) \<le> n"
    and run: "\<not> stopped ?e \<longrightarrow> length (reported ?e) = n"
    using inv unfolding tickInv_def by blast+
  have t1: "\<forall>d. ?dur = Some (Finite d) \<and> d \<noteq> 0 \<longrightarrow>
          ?D = (if 2 ^ 1024 \<le> dbl (d * 1000) then Infinity else Finite (dbl (d * 1000)))"
    by (simp add: exportDuration_def jsOr_def timesThousand_def)
  have t2: "?dur = Some Infinity \<longrightarrow> ?D = Infinity"
    by (simp add: exportDuration_def jsOr_def timesThousand_def)
  have t3: "?dur = None \<or> ?dur = Some (Finite 0) \<longrightarrow> ?D = Finite 5000"
    by (auto simp: exportDuration_def jsOr_def timesThousand_5)
  have p1: "\<forall>i < length (reported ?e).
          reported ?e ! i
            = (case ?D of
                 Infinity \<Rightarrow> 0
               | Finite d \<Rightarrow>
                   if d = 0 then 99
                   else min (jsRound (dbl (dbl (real (100 * (i + 1)) / d) * 100))) 99)"
    using f unfolding progressAt_def .
  have p2: "sorted (reported ?e)"
    using inv by (rule sorted_reports)
  have p3: "\<forall>p \<in> set (reported ?e). p < 100"
  proof
    fix p assume "p \<in> set (reported ?e)"
    then obtain i where "i < length (reported ?e)" "reported ?e ! i = p"
      by (auto simp: in_set_conv_nth)
    with f have "p = progressAt ?D (100 * (i + 1))" by simp
    then show "p < 100" using progressAt_le [of ?D "100 * (i + 1)"] by simp
  qed
  have ne: "reported ?e \<noteq> [] \<longleftrightarrow> 0 < n"
  proof
    assume "reported ?e \<noteq> []" with le show "0 < n" by (cases n) auto
  next
    assume "0 < n"
    show "reported ?e \<noteq> []"
    proof (cases "stopped ?e")
      case True with st show ?thesis by simp
    next
      case False with run \<open>0 < n\<close> show ?thesis by auto
    qed
  qed
  have p4: "\<forall>i. i + 1 < length (reported ?e) \<longrightarrow>
          (case ?D of Infinity \<Rightarrow> True | Finite d \<Rightarrow> real (100 * (i + 1)) < d)"
    using before by (cases ?D) (simp_all add: reached_def not_le)
  have p5: "stopped ?e \<longleftrightarrow>
          0 < n \<and> (case ?D of Infinity \<Rightarrow> False | Finite d \<Rightarrow> d \<le> real (elapsed ?e))"
    using st ne unfolding reached_def by simp
  show ?thesis
    unfolding Let_def
    using t1 t2 t3 p1 p2 p3 el le p4 p5 run by (intro conjI)
qed

theorem export_progress_witness:
  "element (layers (backgroundClip (Finite 4)) Background)
      = Some (VideoEl 640 360 (Some (Finite 4)))
   \<and> exportDuration (backgroundClip (Finite 4)) = Finite 4000
   \<and> length (reported ((tick ^^ 23) (startExport (backgroundClip (Finite 4))))) = 23
   \<and> reported ((tick ^^ 23) (startExport (backgroundClip (Finite 4)))) ! 22 = 57
   \<and> \<not> stopped ((tick ^^ 23) (startExport (backgroundClip (Finite 4))))
   \<and> sorted (reported ((tick ^^ 23) (startExport (backgroundClip (Finite 4)))))
   \<and> stopped ((tick ^^ 45) (startExport (backgroundClip (Finite 4))))
   \<and> length (reported ((tick ^^ 45) (startExport (backgroundClip (Finite 4))))) = 40
   \<and> reported ((tick ^^ 45) (startExport (backgroundClip (Finite 4)))) ! 39 = 99"
proof -
  let ?s = "backgroundClip (Finite 4)"
  let ?a = "(tick ^^ 23) (startExport ?s)" and ?b = "(tick ^^ 45) (startExport ?s)"
  note ta = export_progress [of ?s 23, unfolded Let_def backgroundClip_4 jsnum.case]
  note tb = export_progress [of ?s 45, unfolded Let_def backgroundClip_4 jsnum.case]
  have a1: "\<forall>i < length (reported ?a). reported ?a ! i
      = (if (4000 :: real) = 0 then 99
         else min (jsRound (dbl (dbl (real (100 * (i + 1)) / 4000) * 100))) 99)"
    and a2: "sorted (reported ?a)"
    and a3: "elapsed ?a = 100 * length (reported ?a)"
    and a4: "length (reported ?a) \<le> 23"
    and a5: "stopped ?a \<longleftrightarrow> 0 < (23 :: nat) \<and> 4000 \<le> real (elapsed ?a)"
    and a6: "\<not> stopped ?a \<longrightarrow> length (reported ?a) = 23"
    using ta by blast+
  have b1: "\<forall>i < length (reported ?b). reported ?b ! i
      = (if (4000 :: real) = 0 then 99
         else min (jsRound (dbl (dbl (real (100 * (i + 1)) / 4000) * 100))) 99)"
    and b3: "elapsed ?b = 100 * length (reported ?b)"
    and b4: "length (reported ?b) \<le> 45"
    and b5: "stopped ?b \<longleftrightarrow> 0 < (45 :: nat) \<and> 4000 \<le> real (elapsed ?b)"
    and b6: "\<not> stopped ?b \<longrightarrow> length (reported ?b) = 45"
    and b7: "\<forall>i. i + 1 < length (reported ?b) \<longrightarrow> real (100 * (i + 1)) < 4000"
    using tb by blast+
  have na: "\<not> stopped ?a"
    unfolding a5 a3 using a4 by simp
  then have la: "length (reported ?a) = 23" using a6 by simp
  have "reported ?a ! 22 = progressAt (Finite 4000) (100 * (22 + 1))"
    using a1 la by (simp add: progressAt_def)
  then have ra: "reported ?a ! 22 = 57"
    using progress_2300 by simp
  have sb: "stopped ?b"
  proof (rule ccontr)
    assume n: "\<not> stopped ?b"
    with b6 have "length (reported ?b) = 45" by simp
    with b5 b3 n show False by simp
  qed
  then have ge: "40 \<le> length (reported ?b)"
    unfolding b5 b3 by simp
  have lb: "length (reported ?b) = 40"
  proof (rule ccontr)
    assume "length (reported ?b) \<noteq> 40"
    with ge have "39 + 1 < length (reported ?b)" by simp
    with b7 have "real (100 * (39 + 1)) < 4000" by blast
    then show False by simp
  qed
  have "reported ?b ! 39 = progressAt (Finite 4000) (100 * (39 + 1))"
    using b1 lb by (simp add: progressAt_def)
  then have rb: "reported ?b ! 39 = 99"
    using progress_4000 by simp
  from backgroundClip_element [of "Finite 4"] backgroundClip_4 la ra na a2 sb lb rb
  show ?thesis by blast
qed

lemma running_reports:
  assumes "exportDuration s = Finite d" and "real (100 * n) < d"
  shows "length (reported ((tick ^^ n) (startExport s))) = n"
    and "\<not> stopped ((tick ^^ n) (startExport s))"
    and "\<forall>i < n. reported ((tick ^^ n) (startExport s)) ! i = progressAt (Finite d) (100 * (i + 1))"
proof -
  let ?e = "(tick ^^ n) (startExport s)"
  have inv: "tickInv (Finite d) n ?e"
    using tickInv_funpow [of s n] unfolding assms(1) .
  have el: "elapsed ?e = 100 * length (reported ?e)"
    and f: "\<forall>i < length (reported ?e). reported ?e ! i = progressAt (Finite d) (100 * (i + 1))"
    and st: "stopped ?e \<longleftrightarrow> reported ?e \<noteq> [] \<and> reached (Finite d) (elapsed ?e)"
    and le: "length (reported ?e) \<le> n"
    and run: "\<not> stopped ?e \<longrightarrow> length (reported ?e) = n"
    using inv unfolding tickInv_def by blast+
  have "real (elapsed ?e) \<le> real (100 * n)"
    unfolding el using le by simp
  with assms(2) have "\<not> reached (Finite d) (elapsed ?e)"
    by (simp add: reached_def)
  with st show ns: "\<not> stopped ?e" by simp
  with run show len: "length (reported ?e) = n" by simp
  with f show "\<forall>i < n. reported ?e ! i = progressAt (Finite d) (100 * (i + 1))" by simp
qed

text \<open>
  Claim C4 as stated fails: a background video whose duration is known to be 0 does not
  give the target 0 but the default of 5 seconds; the first run of the callback reports
  2 and does not stop the timer, where the target 0 would give 99 and a stop. And the
  formula is evaluated in double arithmetic: for a background of 4 seconds the 23rd run
  computes \<^verbatim>\<open>(2300 / 4000) * 100\<close> as 57.49999999999999 and reports 57, where the exact
  quotient gives 57.5 and the report 58.
\<close>

theorem zero_duration_and_double_rounding:
  "elDuration (VideoEl 640 360 (Some (Finite 0))) = Some (Finite 0)
   \<and> element (layers (backgroundClip (Finite 0)) Background)
       = Some (VideoEl 640 360 (Some (Finite 0)))
   \<and> exportDuration (backgroundClip (Finite 0)) = Finite 5000
   \<and> reported (tick (startExport (backgroundClip (Finite 0)))) = [2]
   \<and> \<not> stopped (tick (startExport (backgroundClip (Finite 0))))
   \<and> progressAt (Finite 0) 100 = 99
   \<and> reached (Finite 0) 100
   \<and> exportDuration (backgroundClip (Finite 4)) = Finite 4000
   \<and> reported ((tick ^^ 23) (startExport (backgroundClip (Finite 4)))) ! 22 = 57
   \<and> min (jsRound ((2300 / 4000) * 100)) 99 = 58"
proof -
  let ?s = "backgroundClip (Finite 0)"
  have t: "tick (startExport ?s)
      = \<lparr>elapsed = 100, exportTarget = Finite 5000,
         reported = [progressAt (Finite 5000) 100], stopped = reached (Finite 5000) 100\<rparr>"
    by (simp add: tick_def startExport_def backgroundClip_0 Let_def progressAt_def reached_def)
  have r: "reported (tick (startExport ?s)) = [2]"
    unfolding t progress_100_of_5000 by simp
  have s: "\<not> stopped (tick (startExport ?s))"
    unfolding t by (simp add: reached_def)
  have p: "progressAt (Finite 0) 100 = 99" "reached (Finite 0) 100"
    by (simp_all add: progressAt_def reached_def)
  have e: "elDuration (VideoEl 640 360 (Some (Finite 0))) = Some (Finite 0)"
    by (simp add: elDuration_def)
  have "reported ((tick ^^ 23) (startExport (backgroundClip (Finite 4)))) ! 22
      = progressAt (Finite 4000) (100 * (22 + 1))"
    using running_reports(3) [OF backgroundClip_4, of 23] by simp
  then have q: "reported ((tick ^^ 23) (startExport (backgroundClip (Finite 4)))) ! 22 = 57"
    using progress_2300 by simp
  from e backgroundClip_element [of "Finite 0"] backgroundClip_0 r s p backgroundClip_4 q
    exact_2300
  show ?thesis
    by blast
qed

section \<open>Codec negotiation\<close>

lemma mime_prefixes: "prefix (''video/'' @ ''mp4'') mp4Mime" "prefix (''video/'' @ ''webm'') webmMime"
  by (simp_all add: mp4Mime_def webmMime_def)

lemma lower_mp4: "toLowerCase mp4Mime = ''video/mp4; codecs=avc1.42e01e''"
  by code_simp

lemma lower_webm: "toLowerCase webmMime = ''video/webm; codecs=vp9''"
  by code_simp

lemmas lower_mimes = lower_mp4 lower_webm

text \<open>
  \<^verbatim>\<open>exportVideo\<close> chooses MP4/H.264 when the runtime supports it and WebM/VP9 exactly when
  it does not. When the runtime supports the chosen type the file offered for download is
  named \<^verbatim>\<open>composite_export_\<close>, the milliseconds of \<^verbatim>\<open>Date.now()\<close>, a dot and \<^verbatim>\<open>mp4\<close> or
  \<^verbatim>\<open>webm\<close> according to the choice, and its MIME type is the chosen one in lower case,
  which starts with \<^verbatim>\<open>video/\<close> and that extension. The fallback is used unchecked: the
  constructor raises \<^verbatim>\<open>NotSupportedError\<close> exactly when the runtime supports neither type.
\<close>

lemma codec_choice:
  "selectCodec isTypeSupported
      = (if isTypeSupported mp4Mime then (mp4Mime, ''mp4'') else (webmMime, ''webm''))
   \<and> (isTypeSupported mp4Mime \<longrightarrow>
        exportFile isTypeSupported now chunks
          = Inr \<lparr>download = ''composite_export_'' @ showNat now @ ''.mp4'',
                 blobType = ''video/mp4; codecs=avc1.42e01e'', blobParts = chunks\<rparr>)
   \<and> (\<not> isTypeSupported mp4Mime \<and> isTypeSupported webmMime \<longrightarrow>
        exportFile isTypeSupported now chunks
          = Inr \<lparr>download = ''composite_export_'' @ showNat now @ ''.webm'',
                 blobType = ''video/webm; codecs=vp9'', blobParts = chunks\<rparr>)
   \<and> (exportFile isTypeSupported now chunks = Inl NotSupportedError
        \<longleftrightarrow> \<not> isTypeSupported mp4Mime \<and> \<not> isTypeSupported webmMime)
   \<and> (snd (exportVideoStart isTypeSupported s) = Inl NotSupportedError
        \<longleftrightarrow> \<not> isTypeSupported mp4Mime \<and> \<not> isTypeSupported webmMime)"
  using lower_mimes
  by (simp add: selectCodec_def exportFile_def newMediaRecorder_def exportVideoStart_def)

lemma webm_export:
  "\<not> onlyWebm mp4Mime \<and> onlyWebm webmMime
   \<and> exportFile onlyWebm 1730000000000 [''chunk'']
       = Inr \<lparr>download = ''composite_export_1730000000000.webm'',
              blobType = ''video/webm; codecs=vp9'', blobParts = [''chunk'']\<rparr>"
  using codec_choice [of onlyWebm 1730000000000 "[''chunk'']"]
  by (simp add: onlyWebm_def mp4Mime_def webmMime_def showNat.simps digitChar_def)

text \<open>
  Claim C5 fails in the code: on a runtime that records WebM with VP8 only, neither type
  is supported; the fallback is chosen without the check that guards the preferred type,
  and constructing the recorder raises \<^verbatim>\<open>NotSupportedError\<close>. Nothing catches it: the error
  leaves \<^verbatim>\<open>exportVideo\<close> with the exporting flag set (and the loading overlay shown), and
  no file is produced.
\<close>

theorem fallback_unsupported_raises:
  "\<not> onlyVp8 mp4Mime \<and> \<not> onlyVp8 webmMime
   \<and> selectCodec onlyVp8 = (webmMime, ''webm'')
   \<and> exportVideoStart onlyVp8 newVideoCompositor
       = (newVideoCompositor\<lparr>isExporting := True\<rparr>, Inl NotSupportedError)
   \<and> isExporting (fst (exportVideoStart onlyVp8 newVideoCompositor))
   \<and> exportFile onlyVp8 1730000000000 [''chunk''] = Inl NotSupportedError"
  by (simp add: onlyVp8_def exportFile_def exportVideoStart_def selectCodec_def
        newMediaRecorder_def mp4Mime_def webmMime_def)

end
